theory Spec2Isabelle
  imports Main "HOL-Library.Word"
begin

section \<open>BIP32 extended keys: a shallow embedding of \<open>btclib/bip32.py\<close>\<close>

text \<open>
  Python values are modelled as follows: \<open>bytes\<close> is a list of 8-bit words, \<open>int\<close> is
  \<open>int\<close>, \<open>str\<close> is \<open>string\<close>. Every \<open>raise\<close> of the source is an \<open>Inl\<close> result; the
  exception class and the fixed part of its message are kept. The slices \<open>bs[:n]\<close>,
  \<open>bs[n:]\<close> and \<open>bs[1:]\<close> are \<open>take n bs\<close>, \<open>drop n bs\<close> and \<open>tl bs\<close>.
\<close>

type_synonym byte = "8 word"
type_synonym bytes = "byte list"

subsection \<open>Exceptions\<close>

text \<open>The fixed part of each message raised in \<open>bip32.py\<close>, in source order.\<close>

datatype msg =
    InvalidVersionLength      \<comment> \<open>"invalid version length: "\<close>
  | InvalidDepth              \<comment> \<open>"invalid depth: "\<close>
  | InvalidFingerprintLength  \<comment> \<open>"invalid parent fingerprint length: "\<close>
  | InvalidIndex              \<comment> \<open>"invalid index: "\<close>
  | InvalidChainCodeLength    \<comment> \<open>"invalid chain code length: "\<close>
  | InvalidKeyLength          \<comment> \<open>"invalid key length: "\<close>
  | InvalidPrivateKeyPrefix   \<comment> \<open>"invalid private key prefix: "\<close>
  | InvalidPrivateKeyRange    \<comment> \<open>"invalid private key not in 1..n-1: "\<close>
  | InvalidPublicKeyPrefix    \<comment> \<open>"invalid public key prefix not in (0x02, 0x03): "\<close>
  | InvalidPublicKey          \<comment> \<open>"invalid public key: "\<close>
  | UnknownVersion            \<comment> \<open>"unknown extended key version: "\<close>
  | ZeroDepthFingerprint      \<comment> \<open>"zero depth with non-zero parent fingerprint: "\<close>
  | ZeroDepthIndex            \<comment> \<open>"zero depth with non-zero index: "\<close>
  | InvalidDecodedLength      \<comment> \<open>"invalid decoded length: "\<close>
  | SeedTooShort              \<comment> \<open>"too few bits for seed: "\<close>
  | SeedTooLong               \<comment> \<open>"too many bits for seed: "\<close>
  | UnknownPrivateVersion     \<comment> \<open>"unknown private key version: "\<close>
  | NotAPrivateKey            \<comment> \<open>"not a private key: "\<close>
  | HardenedFromPublicKey     \<comment> \<open>"invalid hardened derivation from public key"\<close>
  | DepthOverflow             \<comment> \<open>"final depth greater than 255: "\<close>
  | InvalidForcedVersion      \<comment> \<open>"invalid version forced on the extended key"\<close>
  | NotAPublicKey             \<comment> \<open>"extended parent key is not a public key: "\<close>
  | ChildNotAPrivateKey       \<comment> \<open>"extended child key is not a private key: "\<close>
  | WrongDepths               \<comment> \<open>"not a parent's child: wrong depths"\<close>
  | WrongParentFingerprint    \<comment> \<open>"not a parent's child: wrong parent fingerprint"\<close>
  | HardenedChild             \<comment> \<open>"hardened child derivation"\<close>
  | Collaborator nat          \<comment> \<open>a message of a module outside \<open>bip32.py\<close>\<close>

datatype error =
    BTClibValueError msg
  | BTClibTypeError msg
  | OverflowError             \<comment> \<open>\<open>int.to_bytes\<close> out of range\<close>
  | IndexError                \<comment> \<open>\<open>xs[i]\<close> out of range\<close>
  | ValueError                \<comment> \<open>\<open>list.index\<close> of an absent element\<close>
  | ZeroDivisionError
  | UnicodeDecodeError        \<comment> \<open>\<open>bytes.decode("ascii")\<close> of a byte above 127\<close>

text \<open>Sequencing of fallible steps: the first exception ends the computation.\<close>

definition bnd :: "error + 'a \<Rightarrow> ('a \<Rightarrow> error + 'b) \<Rightarrow> error + 'b" where
  "bnd m f = (case m of Inl e \<Rightarrow> Inl e | Inr v \<Rightarrow> f v)"

subsection \<open>Python built-ins used by the module\<close>

text \<open>\<open>int.from_bytes(bs, byteorder="big", signed=False)\<close>\<close>

definition int_from_bytes :: "bytes \<Rightarrow> int" where
  "int_from_bytes bs = foldl (\<lambda>a b. a * 256 + uint b) 0 bs"

text \<open>\<open>x.to_bytes(n, byteorder="big", signed=False)\<close>: raises outside \<open>0 .. 256^n - 1\<close>.\<close>

fun be_bytes :: "nat \<Rightarrow> int \<Rightarrow> bytes" where
  "be_bytes 0 x = []"
| "be_bytes (Suc n) x = be_bytes n (x div 256) @ [word_of_int (x mod 256)]"

definition int_to_bytes :: "int \<Rightarrow> nat \<Rightarrow> error + bytes" where
  "int_to_bytes x n =
     (if x < 0 \<or> 256 ^ n \<le> x then Inl OverflowError else Inr (be_bytes n x))"

text \<open>\<open>a % n\<close>\<close>

definition py_mod :: "int \<Rightarrow> int \<Rightarrow> error + int" where
  "py_mod a n = (if n = 0 then Inl ZeroDivisionError else Inr (a mod n))"

text \<open>\<open>xs[0]\<close>, \<open>xs[i]\<close> and \<open>xs.index(x)\<close>\<close>

definition item0 :: "'a list \<Rightarrow> error + 'a" where
  "item0 xs = (case xs of [] \<Rightarrow> Inl IndexError | x # _ \<Rightarrow> Inr x)"

definition item :: "'a list \<Rightarrow> nat \<Rightarrow> error + 'a" where
  "item xs i = (if i < length xs then Inr (xs ! i) else Inl IndexError)"

fun list_index :: "'a list \<Rightarrow> 'a \<Rightarrow> error + nat" where
  "list_index [] x = Inl ValueError"
| "list_index (y # ys) x =
     (if y = x then Inr 0 else bnd (list_index ys x) (\<lambda>i. Inr (Suc i)))"

text \<open>
  \<open>str.strip()\<close>: the characters of a \<open>string\<close> are the code points below 256; among them
  Python's whitespace is 9-13, 28-32, 133 and 160.
\<close>

definition is_space :: "char \<Rightarrow> bool" where
  "is_space c = ((of_char c :: nat) \<in> {9, 10, 11, 12, 13, 28, 29, 30, 31, 32, 133, 160})"

definition strip :: "string \<Rightarrow> string" where
  "strip s = rev (dropWhile is_space (rev (dropWhile is_space s)))"

text \<open>\<open>bs.decode("ascii")\<close>\<close>

definition decode_ascii :: "bytes \<Rightarrow> error + string" where
  "decode_ascii bs =
     (if \<forall>b \<in> set bs. b < 128 then Inr (map (\<lambda>b. char_of (unat b)) bs)
      else Inl UnicodeDecodeError)"

text \<open>The aliases \<open>String = Union[str, bytes]\<close> and \<open>Octets = Union[bytes, str]\<close>.\<close>

datatype String = Str string | Bytes bytes

type_synonym Octets = String

text \<open>Truth value of a \<open>str\<close> or \<open>bytes\<close> object: non-empty.\<close>

fun truthy :: "String \<Rightarrow> bool" where
  "truthy (Str s) = (s \<noteq> [])"
| "truthy (Bytes b) = (b \<noteq> [])"

subsection \<open>Collaborators\<close>

text \<open>
  The modules \<open>curve\<close>, \<open>sec_point\<close>, \<open>utils\<close>, \<open>base58\<close>, \<open>bip32_path\<close>, the standard
  \<open>hmac\<close> and the version tables loaded by \<open>network\<close> from its data files are not part of
  the verified module. They are parameters of every definition below.
\<close>

record ('pt, 'path) collaborators =
  ec_n :: int                                        \<comment> \<open>\<open>ec.n\<close>\<close>
  INF_point :: 'pt                                         \<comment> \<open>\<open>INF\<close>\<close>
  mult :: "int \<Rightarrow> 'pt"                                \<comment> \<open>\<open>mult(q)\<close>\<close>
  ec_add :: "'pt \<Rightarrow> 'pt \<Rightarrow> 'pt"                        \<comment> \<open>\<open>ec.add(Q, R)\<close>\<close>
  ec_y :: "int \<Rightarrow> error + int"                        \<comment> \<open>\<open>ec.y(x)\<close>\<close>
  bytes_from_point :: "'pt \<Rightarrow> error + bytes"          \<comment> \<open>\<open>bytes_from_point(Q)\<close>\<close>
  point_from_octets :: "bytes \<Rightarrow> error + 'pt"         \<comment> \<open>\<open>point_from_octets(key, ec)\<close>\<close>
  hash160 :: "bytes \<Rightarrow> bytes"                         \<comment> \<open>\<open>hash160(data)\<close>\<close>
  hmac_sha512 :: "bytes \<Rightarrow> bytes \<Rightarrow> bytes"            \<comment> \<open>\<open>hmac.new(key, msg, "sha512").digest()\<close>\<close>
  base58_b58encode :: "bytes \<Rightarrow> bytes"                \<comment> \<open>\<open>base58.b58encode(data)\<close>\<close>
  base58_b58decode :: "String \<Rightarrow> error + bytes"       \<comment> \<open>\<open>base58.b58decode(data)\<close>\<close>
  bytes_from_octets :: "Octets \<Rightarrow> nat option \<Rightarrow> error + bytes"
                                                     \<comment> \<open>\<open>bytes_from_octets(o, out_size)\<close>\<close>
  indexes_from_bip32_path :: "'path \<Rightarrow> error + int list"
                                                     \<comment> \<open>\<open>indexes_from_bip32_path(der_path)\<close>\<close>
  XPRV_VERSIONS_ALL :: "bytes list"                  \<comment> \<open>\<open>_XPRV_VERSIONS_ALL\<close>\<close>
  XPUB_VERSIONS_ALL :: "bytes list"                  \<comment> \<open>\<open>_XPUB_VERSIONS_ALL\<close>\<close>

subsection \<open>The class \<open>BIP32KeyData\<close>\<close>

record BIP32KeyData =
  version :: bytes
  depth :: int
  parent_fingerprint :: bytes
  index :: int
  chain_code :: bytes
  key :: bytes

definition is_hardened :: "'z BIP32KeyData_scheme \<Rightarrow> bool" where
  "is_hardened k = (index k \<ge> 0x80000000)"

text \<open>
  \<open>assert_valid\<close>. The \<open>isinstance\<close> tests are decided by the types of the record. The
  \<open>except\<close> clause around \<open>ec.y\<close> catches \<open>BTClibValueError\<close> only.
\<close>

definition assert_valid ::
  "('pt, 'path) collaborators \<Rightarrow> 'z BIP32KeyData_scheme \<Rightarrow> error + unit" where
  "assert_valid E k =
     (if length (version k) \<noteq> 4 then Inl (BTClibValueError InvalidVersionLength)
      else if depth k < 0 \<or> depth k > 255 then Inl (BTClibValueError InvalidDepth)
      else if length (parent_fingerprint k) \<noteq> 4
        then Inl (BTClibValueError InvalidFingerprintLength)
      else if \<not> (0 \<le> index k \<and> index k \<le> 0xFFFFFFFF)
        then Inl (BTClibValueError InvalidIndex)
      else if length (chain_code k) \<noteq> 32 then Inl (BTClibValueError InvalidChainCodeLength)
      else if length (key k) \<noteq> 33 then Inl (BTClibValueError InvalidKeyLength)
      else bnd
        (if version k \<in> set (XPRV_VERSIONS_ALL E) then
           (if key k ! 0 \<noteq> 0 then Inl (BTClibValueError InvalidPrivateKeyPrefix)
            else if \<not> (0 < int_from_bytes (tl (key k))
                        \<and> int_from_bytes (tl (key k)) < ec_n E)
              then Inl (BTClibValueError InvalidPrivateKeyRange)
            else Inr ())
         else if version k \<in> set (XPUB_VERSIONS_ALL E) then
           (if key k ! 0 \<notin> {2, 3} then Inl (BTClibValueError InvalidPublicKeyPrefix)
            else case ec_y E (int_from_bytes (tl (key k))) of
                   Inl (BTClibValueError m) \<Rightarrow> Inl (BTClibValueError InvalidPublicKey)
                 | Inl e \<Rightarrow> Inl e
                 | Inr y \<Rightarrow> Inr ())
         else Inl (BTClibValueError UnknownVersion))
        (\<lambda>u. if depth k = 0 then
               (if parent_fingerprint k \<noteq> [0, 0, 0, 0]
                  then Inl (BTClibValueError ZeroDepthFingerprint)
                else if index k \<noteq> 0 then Inl (BTClibValueError ZeroDepthIndex)
                else Inr ())
             else Inr ()))"

text \<open>The generated constructor with \<open>__post_init__(check_validity)\<close>.\<close>

definition BIP32KeyData_init ::
  "('pt, 'path) collaborators \<Rightarrow> bytes \<Rightarrow> int \<Rightarrow> bytes \<Rightarrow> int \<Rightarrow> bytes \<Rightarrow> bytes \<Rightarrow> bool
     \<Rightarrow> error + BIP32KeyData" where
  "BIP32KeyData_init E v d f i c k check_validity =
     (let xkey = \<lparr>version = v, depth = d, parent_fingerprint = f, index = i,
                  chain_code = c, key = k\<rparr>
      in if check_validity then bnd (assert_valid E xkey) (\<lambda>u. Inr xkey) else Inr xkey)"

definition serialize ::
  "('pt, 'path) collaborators \<Rightarrow> 'z BIP32KeyData_scheme \<Rightarrow> bool \<Rightarrow> error + bytes" where
  "serialize E k av =
     bnd (if av then assert_valid E k else Inr ()) (\<lambda>u.
     bnd (int_to_bytes (depth k) 1) (\<lambda>d.
     bnd (int_to_bytes (index k) 4) (\<lambda>i.
     Inr (version k @ d @ parent_fingerprint k @ i @ chain_code k @ key k))))"

text \<open>
  \<open>deserialize\<close> is modelled on a byte string, which \<open>bytesio_from_binarydata\<close> wraps
  in a \<open>BytesIO\<close>. \<open>stream.read(n)\<close> gives the next at most \<open>n\<close> bytes, and the rest
  of the stream.
\<close>

definition stream_read :: "nat \<Rightarrow> bytes \<Rightarrow> bytes \<times> bytes" where
  "stream_read n s = (take n s, drop n s)"

definition deserialize ::
  "('pt, 'path) collaborators \<Rightarrow> bytes \<Rightarrow> bool \<Rightarrow> error + BIP32KeyData" where
  "deserialize E xkey_bin av =
     (let (v, s1) = stream_read 4 xkey_bin;
          (d, s2) = stream_read 1 s1;
          (f, s3) = stream_read 4 s2;
          (i, s4) = stream_read 4 s3;
          (c, s5) = stream_read 32 s4;
          (k, s6) = stream_read 33 s5;
          xkey = \<lparr>version = v, depth = int_from_bytes d, parent_fingerprint = f,
                  index = int_from_bytes i, chain_code = c, key = k\<rparr>
      in if av then bnd (assert_valid E xkey) (\<lambda>u. Inr xkey) else Inr xkey)"

definition b58encode ::
  "('pt, 'path) collaborators \<Rightarrow> 'z BIP32KeyData_scheme \<Rightarrow> bool \<Rightarrow> error + bytes" where
  "b58encode E k av = bnd (serialize E k av) (\<lambda>data_binary. Inr (base58_b58encode E data_binary))"

definition b58decode ::
  "('pt, 'path) collaborators \<Rightarrow> String \<Rightarrow> bool \<Rightarrow> error + BIP32KeyData" where
  "b58decode E data_str av =
     bnd (base58_b58decode E (case data_str of Str s \<Rightarrow> Str (strip s) | Bytes b \<Rightarrow> Bytes b))
       (\<lambda>data_decoded.
     if av \<and> length data_decoded \<noteq> 78 then Inl (BTClibValueError InvalidDecodedLength)
     else deserialize E data_decoded av)"

subsection \<open>Root key, neutering\<close>

text \<open>The literal \<open>b"Bitcoin seed"\<close>.\<close>

definition bitcoin_seed :: bytes where
  "bitcoin_seed = [66, 105, 116, 99, 111, 105, 110, 32, 115, 101, 101, 100]"

text \<open>\<open>_rootxprv_from_seed\<close>\<close>

definition rootxprv_from_seed_data ::
  "('pt, 'path) collaborators \<Rightarrow> Octets \<Rightarrow> Octets \<Rightarrow> error + BIP32KeyData" where
  "rootxprv_from_seed_data E seed vers =
     bnd (bytes_from_octets E seed None) (\<lambda>seed'.
     let bitlenght = int (length seed') * 8 in
     if bitlenght < 128 then Inl (BTClibValueError SeedTooShort)
     else if bitlenght > 512 then Inl (BTClibValueError SeedTooLong)
     else
       let hmac_digest = hmac_sha512 E bitcoin_seed seed';
           k = 0 # take 32 hmac_digest
       in bnd (bytes_from_octets E vers (Some 4)) (\<lambda>v.
          if v \<notin> set (XPRV_VERSIONS_ALL E) then Inl (BTClibValueError UnknownPrivateVersion)
          else BIP32KeyData_init E v 0 [0, 0, 0, 0] 0 (drop 32 hmac_digest) k True))"

text \<open>The alias \<open>BIP32Key = Union[BIP32KeyData, String]\<close>.\<close>

datatype BIP32Key = KeyData BIP32KeyData | KeyString String

text \<open>The recurring \<open>isinstance(x, BIP32KeyData)\<close> test: use the object, or decode the text.\<close>

definition key_data :: "('pt, 'path) collaborators \<Rightarrow> BIP32Key \<Rightarrow> error + BIP32KeyData" where
  "key_data E x = (case x of KeyData k \<Rightarrow> Inr k | KeyString s \<Rightarrow> b58decode E s True)"

text \<open>
  An error message built from \<open>xkey.b58encode().decode('ascii')\<close>: the encoding validates
  the key, so building the message can itself raise.
\<close>

definition raise_with_key ::
  "('pt, 'path) collaborators \<Rightarrow> msg \<Rightarrow> 'z BIP32KeyData_scheme \<Rightarrow> error + 'a" where
  "raise_with_key E m k =
     bnd (b58encode E k True) (\<lambda>b. bnd (decode_ascii b) (\<lambda>s. Inl (BTClibValueError m)))"

text \<open>\<open>_xpub_from_xprv\<close>\<close>

definition xpub_from_xprv_data ::
  "('pt, 'path) collaborators \<Rightarrow> BIP32Key \<Rightarrow> error + BIP32KeyData" where
  "xpub_from_xprv_data E xprv =
     bnd (key_data E xprv) (\<lambda>xkey.
     bnd (item0 (key xkey)) (\<lambda>k0.
     if k0 \<noteq> 0 then raise_with_key E NotAPrivateKey xkey
     else
       bnd (list_index (XPRV_VERSIONS_ALL E) (version xkey)) (\<lambda>i.
       bnd (item (XPUB_VERSIONS_ALL E) i) (\<lambda>v.
       bnd (bytes_from_point E (mult E (int_from_bytes (tl (key xkey))))) (\<lambda>kb.
       Inr (xkey\<lparr>version := v, key := kb\<rparr>))))))"

text \<open>\<open>xpub_from_xprv\<close>\<close>

definition xpub_from_xprv :: "('pt, 'path) collaborators \<Rightarrow> BIP32Key \<Rightarrow> error + string" where
  "xpub_from_xprv E xprv =
     bnd (xpub_from_xprv_data E xprv) (\<lambda>xkey. bnd (b58encode E xkey True) decode_ascii)"

subsection \<open>Child key derivation\<close>

text \<open>The subclass \<open>_ExtendedBIP32KeyData\<close> with the cached scalar and point.\<close>

record 'pt ExtendedBIP32KeyData = BIP32KeyData +
  q :: int
  Q :: 'pt

definition ExtendedBIP32KeyData_init ::
  "('pt, 'path) collaborators \<Rightarrow> bytes \<Rightarrow> int \<Rightarrow> bytes \<Rightarrow> int \<Rightarrow> bytes \<Rightarrow> bytes \<Rightarrow> int \<Rightarrow> 'pt
     \<Rightarrow> error + 'pt ExtendedBIP32KeyData" where
  "ExtendedBIP32KeyData_init E v d f i c k sc pt =
     (let xkey = \<lparr>version = v, depth = d, parent_fingerprint = f, index = i,
                  chain_code = c, key = k, q = sc, Q = pt\<rparr>
      in bnd (assert_valid E xkey) (\<lambda>u. Inr xkey))"

text \<open>\<open>__ckd\<close>: the object is updated in place; here the updated object is returned.\<close>

definition ckd ::
  "('pt, 'path) collaborators \<Rightarrow> 'pt ExtendedBIP32KeyData \<Rightarrow> int
     \<Rightarrow> error + 'pt ExtendedBIP32KeyData" where
  "ckd E xkey0 idx =
     (let xkey = xkey0\<lparr>depth := depth xkey0 + 1, index := idx\<rparr> in
      bnd (item0 (key xkey)) (\<lambda>k0.
      if k0 = 0 then
        bnd (bytes_from_point E (mult E (q xkey))) (\<lambda>Q_bytes.
        let xkey = xkey\<lparr>parent_fingerprint := take 4 (hash160 E Q_bytes)\<rparr> in
        bnd (int_to_bytes idx 4) (\<lambda>ib.
        let hmac_digest =
              (if is_hardened xkey then hmac_sha512 E (chain_code xkey) (key xkey @ ib)
               else hmac_sha512 E (chain_code xkey) (Q_bytes @ ib));
            xkey = xkey\<lparr>chain_code := drop 32 hmac_digest\<rparr>;
            offset = int_from_bytes (take 32 hmac_digest)
        in bnd (py_mod (q xkey + offset) (ec_n E)) (\<lambda>q'.
           let xkey = xkey\<lparr>q := q'\<rparr> in
           bnd (int_to_bytes (q xkey) 32) (\<lambda>qb.
           Inr (xkey\<lparr>key := 0 # qb, Q := INF_point E\<rparr>)))))
      else
        (let xkey = xkey\<lparr>parent_fingerprint := take 4 (hash160 E (key xkey))\<rparr> in
         if is_hardened xkey then Inl (BTClibValueError HardenedFromPublicKey)
         else
           bnd (int_to_bytes idx 4) (\<lambda>ib.
           let hmac_digest = hmac_sha512 E (chain_code xkey) (key xkey @ ib);
               xkey = xkey\<lparr>chain_code := drop 32 hmac_digest\<rparr>;
               offset = int_from_bytes (take 32 hmac_digest);
               xkey = xkey\<lparr>Q := ec_add E (Q xkey) (mult E offset)\<rparr>
           in bnd (bytes_from_point E (Q xkey)) (\<lambda>kb.
              Inr (xkey\<lparr>key := kb, q := 0\<rparr>))))))"

text \<open>The loop \<open>for index in indexes: __ckd(xkey, index)\<close>.\<close>

fun ckd_loop ::
  "('pt, 'path) collaborators \<Rightarrow> 'pt ExtendedBIP32KeyData \<Rightarrow> int list
     \<Rightarrow> error + 'pt ExtendedBIP32KeyData" where
  "ckd_loop E xkey [] = Inr xkey"
| "ckd_loop E xkey (i # indexes) = bnd (ckd E xkey i) (\<lambda>xkey'. ckd_loop E xkey' indexes)"

text \<open>\<open>_derive\<close>\<close>

definition derive_data ::
  "('pt, 'path) collaborators \<Rightarrow> BIP32Key \<Rightarrow> 'path \<Rightarrow> Octets option
     \<Rightarrow> error + 'pt ExtendedBIP32KeyData" where
  "derive_data E xkey0 der_path forced_version =
     bnd (key_data E xkey0) (\<lambda>xkey.
     bnd (indexes_from_bip32_path E der_path) (\<lambda>indexes.
     let final_depth = depth xkey + int (length indexes) in
     if final_depth > 255 then Inl (BTClibValueError DepthOverflow)
     else
       bnd (item0 (key xkey)) (\<lambda>k0.
       let is_prv = (k0 = 0);
           sc = (if is_prv then int_from_bytes (tl (key xkey)) else 0)
       in bnd (if is_prv then Inr (INF_point E) else point_from_octets E (key xkey)) (\<lambda>pt.
          bnd (ExtendedBIP32KeyData_init E (version xkey) (depth xkey)
                 (parent_fingerprint xkey) (index xkey) (chain_code xkey) (key xkey) sc pt)
            (\<lambda>xkey.
          bnd (ckd_loop E xkey indexes) (\<lambda>xkey.
          case forced_version of
            None \<Rightarrow> Inr xkey
          | Some fv \<Rightarrow>
              if \<not> truthy fv then Inr xkey
              else
                bnd (bytes_from_octets E fv (Some 4)) (\<lambda>fversion.
                if fversion \<notin> set (if version xkey \<in> set (XPRV_VERSIONS_ALL E)
                                      then XPRV_VERSIONS_ALL E else XPUB_VERSIONS_ALL E)
                  then Inl (BTClibValueError InvalidForcedVersion)
                else Inr (xkey\<lparr>version := fversion\<rparr>))))))))"

text \<open>\<open>derive\<close>\<close>

definition derive ::
  "('pt, 'path) collaborators \<Rightarrow> BIP32Key \<Rightarrow> 'path \<Rightarrow> Octets option \<Rightarrow> error + string" where
  "derive E xkey der_path forced_version =
     bnd (derive_data E xkey der_path forced_version) (\<lambda>xkey.
     bnd (b58encode E xkey True) decode_ascii)"

subsection \<open>Recovering the parent private key\<close>

text \<open>\<open>crack_prv_key\<close>\<close>

definition crack_prv_key ::
  "('pt, 'path) collaborators \<Rightarrow> BIP32Key \<Rightarrow> BIP32Key \<Rightarrow> error + string" where
  "crack_prv_key E parent_xpub child_xprv =
     bnd (key_data E parent_xpub) (\<lambda>p.
     bnd (item0 (key p)) (\<lambda>p0.
     if p0 \<notin> {2, 3} then raise_with_key E NotAPublicKey p
     else
       bnd (key_data E child_xprv) (\<lambda>c.
       bnd (item0 (key c)) (\<lambda>c0.
       if c0 \<noteq> 0 then raise_with_key E ChildNotAPrivateKey c
       else if depth c \<noteq> depth p + 1 then Inl (BTClibValueError WrongDepths)
       else if parent_fingerprint c \<noteq> take 4 (hash160 E (key p))
         then Inl (BTClibValueError WrongParentFingerprint)
       else if is_hardened c then Inl (BTClibValueError HardenedChild)
       else
         (let p = p\<lparr>version := version c\<rparr> in
          bnd (int_to_bytes (index c) 4) (\<lambda>ib.
          let hmac_digest = hmac_sha512 E (chain_code p) (key p @ ib);
              child_q = int_from_bytes (tl (key c));
              offset = int_from_bytes (take 32 hmac_digest)
          in bnd (py_mod (child_q - offset) (ec_n E)) (\<lambda>parent_q.
             bnd (int_to_bytes parent_q 32) (\<lambda>qb.
             let p = p\<lparr>key := 0 # qb\<rparr> in
             bnd (b58encode E p True) decode_ascii))))))))"

text \<open>The \<open>BIP32KeyData\<close> fields of an object of the class or of its subclass.\<close>

definition plain :: "'z BIP32KeyData_scheme \<Rightarrow> BIP32KeyData" where
  "plain k = \<lparr>version = version k, depth = depth k, parent_fingerprint = parent_fingerprint k,
     index = index k, chain_code = chain_code k, key = key k\<rparr>"

text \<open>The object that \<open>_derive\<close> builds from a key, a scalar and a point.\<close>

definition extended :: "BIP32KeyData \<Rightarrow> int \<Rightarrow> 'pt \<Rightarrow> 'pt ExtendedBIP32KeyData" where
  "extended k sc pt = \<lparr>version = version k, depth = depth k,
     parent_fingerprint = parent_fingerprint k, index = index k, chain_code = chain_code k,
     key = key k, q = sc, Q = pt\<rparr>"

text \<open>
  The object left by the private branch of \<open>__ckd\<close>, given the encoding \<open>Qb\<close> of the
  public point of the cached scalar.
\<close>

definition prv_child ::
  "('pt, 'path) collaborators \<Rightarrow> 'pt ExtendedBIP32KeyData \<Rightarrow> int \<Rightarrow> bytes
     \<Rightarrow> 'pt ExtendedBIP32KeyData" where
  "prv_child E x idx Qb =
     (let h = hmac_sha512 E (chain_code x)
                ((if idx \<ge> 0x80000000 then key x else Qb) @ be_bytes 4 idx);
          q' = (q x + int_from_bytes (take 32 h)) mod ec_n E
      in x\<lparr>depth := depth x + 1, index := idx,
            parent_fingerprint := take 4 (hash160 E Qb), chain_code := drop 32 h,
            key := 0 # be_bytes 32 q', q := q', Q := INF_point E\<rparr>)"

text \<open>
  What holds of the object during a derivation from a private key: the fields have
  their lengths, the key is the encoding of the cached scalar, which is below the order.
\<close>

definition prv_inv :: "('pt, 'path) collaborators \<Rightarrow> 'pt ExtendedBIP32KeyData \<Rightarrow> bool" where
  "prv_inv E x \<longleftrightarrow>
     version x \<in> set (XPRV_VERSIONS_ALL E) \<and> length (version x) = 4 \<and> 0 \<le> depth x \<and>
     length (parent_fingerprint x) = 4 \<and> 0 \<le> index x \<and> index x \<le> 0xFFFFFFFF \<and>
     length (chain_code x) = 32 \<and> key x = 0 # be_bytes 32 (q x) \<and>
     0 \<le> q x \<and> q x < ec_n E \<and> Q x = INF_point E \<and>
     (depth x = 0 \<longrightarrow> parent_fingerprint x = [0, 0, 0, 0] \<and> index x = 0)"

text \<open>The text form of a key: \<open>xkey.b58encode().decode("ascii")\<close>.\<close>

definition key_text ::
  "('pt, 'path) collaborators \<Rightarrow> 'z BIP32KeyData_scheme \<Rightarrow> error + string" where
  "key_text E k = bnd (b58encode E k True) decode_ascii"

subsection \<open>What the module expects of its collaborators\<close>

text \<open>
  The curve: \<open>mult\<close> maps addition of scalars modulo the order \<open>n\<close> to \<open>ec.add\<close>; the
  multiples of \<open>n\<close> give the point at infinity, which has no byte encoding; every other
  point is encoded in 33 bytes with prefix 2 or 3 and an x-coordinate accepted by \<open>ec.y\<close>,
  and \<open>point_from_octets\<close> decodes it again. The order fits in 32 bytes.
\<close>

definition curve_ok :: "('pt, 'path) collaborators \<Rightarrow> bool" where
  "curve_ok E \<longleftrightarrow>
     1 < ec_n E \<and> ec_n E \<le> 2 ^ 256 \<and>
     (\<forall>a b. 0 \<le> a \<longrightarrow> 0 \<le> b \<longrightarrow>
        ec_add E (mult E a) (mult E b) = mult E ((a + b) mod ec_n E)) \<and>
     (\<forall>a. 0 \<le> a \<longrightarrow> a mod ec_n E = 0 \<longrightarrow> isl (bytes_from_point E (mult E a))) \<and>
     (\<forall>a. 0 \<le> a \<longrightarrow> a mod ec_n E \<noteq> 0 \<longrightarrow>
        (\<exists>bs. bytes_from_point E (mult E a) = Inr bs \<and> length bs = 33 \<and> bs ! 0 \<in> {2, 3} \<and>
              \<not> isl (ec_y E (int_from_bytes (tl bs))) \<and>
              point_from_octets E bs = Inr (mult E a)))"

text \<open>The digests have their standard lengths: 20 and 64 bytes.\<close>

definition hashes_ok :: "('pt, 'path) collaborators \<Rightarrow> bool" where
  "hashes_ok E \<longleftrightarrow>
     (\<forall>x. length (hash160 E x) = 20) \<and> (\<forall>k d. length (hmac_sha512 E k d) = 64)"

text \<open>
  Base58Check: the encoding is ASCII, and decoding it gives the payload back, from the
  \<open>bytes\<close> object as well as from its stripped \<open>str\<close>.
\<close>

definition base58_ok :: "('pt, 'path) collaborators \<Rightarrow> bool" where
  "base58_ok E \<longleftrightarrow>
     (\<forall>bs. (\<forall>b \<in> set (base58_b58encode E bs). b < 128) \<and>
           base58_b58decode E (Bytes (base58_b58encode E bs)) = Inr bs \<and>
           base58_b58decode E
             (Str (strip (map (\<lambda>b. char_of (unat b)) (base58_b58encode E bs)))) = Inr bs)"

text \<open>
  The version tables: index-aligned, without a version in both, the public ones of
  4 bytes.
\<close>

definition versions_ok :: "('pt, 'path) collaborators \<Rightarrow> bool" where
  "versions_ok E \<longleftrightarrow>
     length (XPRV_VERSIONS_ALL E) = length (XPUB_VERSIONS_ALL E) \<and>
     set (XPRV_VERSIONS_ALL E) \<inter> set (XPUB_VERSIONS_ALL E) = {} \<and>
     (\<forall>v \<in> set (XPUB_VERSIONS_ALL E). length v = 4)"

definition collaborators_ok :: "('pt, 'path) collaborators \<Rightarrow> bool" where
  "collaborators_ok E \<longleftrightarrow> curve_ok E \<and> hashes_ok E \<and> base58_ok E \<and> versions_ok E"

subsection \<open>The invariants of the data model, as the specification words them\<close>

definition key_invariants ::
  "('pt, 'path) collaborators \<Rightarrow> 'z BIP32KeyData_scheme \<Rightarrow> bool" where
  "key_invariants E k \<longleftrightarrow>
     (version k \<in> set (XPRV_VERSIONS_ALL E) \<or> version k \<in> set (XPUB_VERSIONS_ALL E)) \<and>
     0 \<le> depth k \<and> depth k \<le> 255 \<and>
     length (parent_fingerprint k) = 4 \<and>
     0 \<le> index k \<and> index k \<le> 0xFFFFFFFF \<and>
     length (chain_code k) = 32 \<and>
     length (key k) = 33 \<and>
     (version k \<in> set (XPRV_VERSIONS_ALL E) \<longrightarrow>
        key k ! 0 = 0 \<and> 0 < int_from_bytes (tl (key k))
        \<and> int_from_bytes (tl (key k)) < ec_n E) \<and>
     (version k \<notin> set (XPRV_VERSIONS_ALL E) \<longrightarrow>
        key k ! 0 \<in> {2, 3} \<and> (\<exists>y. ec_y E (int_from_bytes (tl (key k))) = Inr y)) \<and>
     (depth k = 0 \<longrightarrow> parent_fingerprint k = [0, 0, 0, 0] \<and> index k = 0)"

subsection \<open>A small instance of the collaborators\<close>

text \<open>
  The integers modulo 13 under addition stand for the curve group, sums of bytes for the
  digests and a two-letter code per byte for Base58Check. The instance serves to run the
  definitions on concrete keys.
\<close>

definition demo_bytes_from_point :: "int \<Rightarrow> error + bytes" where
  "demo_bytes_from_point P =
     (if P = 0 then Inl (BTClibValueError (Collaborator 0))
      else Inr ((if even P then 2 else 3) # be_bytes 32 P))"

definition demo_point_from_octets :: "bytes \<Rightarrow> error + int" where
  "demo_point_from_octets bs =
     (if length bs = 33 \<and> 0 < int_from_bytes (tl bs) \<and> int_from_bytes (tl bs) < 13
         \<and> bs ! 0 = (if even (int_from_bytes (tl bs)) then 2 else 3)
      then Inr (int_from_bytes (tl bs))
      else Inl (BTClibValueError (Collaborator 1)))"

definition demo_ec_y :: "int \<Rightarrow> error + int" where
  "demo_ec_y x = (if 0 < x \<and> x < 13 then Inr x else Inl (BTClibValueError (Collaborator 2)))"

definition byte_sum :: "bytes \<Rightarrow> int" where
  "byte_sum bs = sum_list (map uint bs)"

definition demo_hash160 :: "bytes \<Rightarrow> bytes" where
  "demo_hash160 bs = rev (be_bytes 20 (byte_sum bs))"

definition demo_hmac_sha512 :: "bytes \<Rightarrow> bytes \<Rightarrow> bytes" where
  "demo_hmac_sha512 k d =
     be_bytes 32 (byte_sum (k @ d) mod 11 + 1) @ be_bytes 32 (byte_sum d + 1)"

definition demo_b58encode :: "bytes \<Rightarrow> bytes" where
  "demo_b58encode bs = concat (map (\<lambda>b. [65 + b div 16, 65 + b mod 16]) bs)"

fun demo_unhex :: "bytes \<Rightarrow> error + bytes" where
  "demo_unhex [] = Inr []"
| "demo_unhex [h] = Inl (BTClibValueError (Collaborator 3))"
| "demo_unhex (h # l # rest) =
     (if 65 \<le> h \<and> h < 81 \<and> 65 \<le> l \<and> l < 81
      then bnd (demo_unhex rest) (\<lambda>r. Inr (((h - 65) * 16 + (l - 65)) # r))
      else Inl (BTClibValueError (Collaborator 3)))"

fun demo_b58decode :: "String \<Rightarrow> error + bytes" where
  "demo_b58decode (Bytes b) = demo_unhex b"
| "demo_b58decode (Str s) = demo_unhex (map (\<lambda>c. of_nat (of_char c)) s)"

fun demo_bytes_from_octets :: "Octets \<Rightarrow> nat option \<Rightarrow> error + bytes" where
  "demo_bytes_from_octets (Bytes b) None = Inr b"
| "demo_bytes_from_octets (Bytes b) (Some n) =
     (if length b = n then Inr b else Inl (BTClibValueError (Collaborator 4)))"
| "demo_bytes_from_octets (Str s) sz = Inl (BTClibValueError (Collaborator 5))"

definition demo :: "(int, int list) collaborators" where
  "demo = \<lparr>ec_n = 13, INF_point = 0, mult = (\<lambda>m. m mod 13),
           ec_add = (\<lambda>a b. (a + b) mod 13), ec_y = demo_ec_y,
           bytes_from_point = demo_bytes_from_point,
           point_from_octets = demo_point_from_octets,
           hash160 = demo_hash160, hmac_sha512 = demo_hmac_sha512,
           base58_b58encode = demo_b58encode, base58_b58decode = demo_b58decode,
           bytes_from_octets = demo_bytes_from_octets,
           indexes_from_bip32_path = Inr,
           XPRV_VERSIONS_ALL = [[4, 136, 173, 228], [4, 53, 131, 148]],
           XPUB_VERSIONS_ALL = [[4, 136, 178, 30], [4, 53, 135, 207]]\<rparr>"

definition demo_xprv :: BIP32KeyData where
  "demo_xprv = \<lparr>version = [4, 136, 173, 228], depth = 0, parent_fingerprint = [0, 0, 0, 0],
                index = 0, chain_code = replicate 32 7, key = 0 # be_bytes 32 5\<rparr>"

definition demo_xpub :: BIP32KeyData where
  "demo_xpub = \<lparr>version = [4, 136, 178, 30], depth = 0, parent_fingerprint = [0, 0, 0, 0],
                index = 0, chain_code = replicate 32 7, key = 3 # be_bytes 32 5\<rparr>"

definition demo_xprv_bin :: bytes where
  "demo_xprv_bin =
     [4, 136, 173, 228, 0, 0, 0, 0, 0, 0, 0, 0, 0] @ replicate 32 7 @ replicate 32 0 @ [5]"

definition demo_seed :: bytes where
  "demo_seed = replicate 15 0 @ [1]"

text \<open>The children of \<open>demo_xprv\<close> at the indexes 3 and 0x80000000.\<close>

definition demo_child3 :: BIP32KeyData where
  "demo_child3 = \<lparr>version = [4, 136, 173, 228], depth = 1, parent_fingerprint = [8, 0, 0, 0],
                  index = 3, chain_code = replicate 31 0 @ [12], key = 0 # be_bytes 32 10\<rparr>"

definition demo_child_h :: BIP32KeyData where
  "demo_child_h = \<lparr>version = [4, 136, 173, 228], depth = 1,
                   parent_fingerprint = [8, 0, 0, 0], index = 0x80000000,
                   chain_code = replicate 31 0 @ [134], key = 0 # be_bytes 32 11\<rparr>"

text \<open>A valid public and a valid private extended key at the greatest depth.\<close>

definition demo_deep_xpub :: BIP32KeyData where
  "demo_deep_xpub = demo_xpub\<lparr>depth := 255\<rparr>"

definition demo_deep_xprv :: BIP32KeyData where
  "demo_deep_xprv = demo_xprv\<lparr>depth := 255\<rparr>"

text \<open>
  Two objects built without validation: a private version with key byte 2, and a public
  version with key byte 0.
\<close>

definition demo_unchecked_prv :: BIP32KeyData where
  "demo_unchecked_prv = demo_xprv\<lparr>key := 2 # be_bytes 32 5\<rparr>"

definition demo_unchecked_pub :: BIP32KeyData where
  "demo_unchecked_pub = demo_xpub\<lparr>key := 0 # be_bytes 32 5\<rparr>"

text \<open>A valid hardened private key at depth 5, not a child of \<open>demo_xpub\<close>.\<close>

definition demo_stray_h :: BIP32KeyData where
  "demo_stray_h = demo_child_h\<lparr>depth := 5\<rparr>"

text \<open>
  The key of \<open>demo_xprv\<close> at the path 0x80000000, 1, and the public key at the
  index 3.
\<close>

definition demo_grandchild :: BIP32KeyData where
  "demo_grandchild = \<lparr>version = [4, 136, 173, 228], depth = 2,
                      parent_fingerprint = [14, 0, 0, 0], index = 1,
                      chain_code = replicate 31 0 @ [16], key = 0 # be_bytes 32 5\<rparr>"

definition demo_pub_child3 :: BIP32KeyData where
  "demo_pub_child3 = \<lparr>version = [4, 136, 178, 30], depth = 1,
                      parent_fingerprint = [8, 0, 0, 0], index = 3,
                      chain_code = replicate 31 0 @ [12], key = 2 # be_bytes 32 10\<rparr>"

section \<open>Properties\<close>

lemma bnd_simps [simp]: "bnd (Inl e) f = Inl e" "bnd (Inr v) f = f v"
  by (simp_all add: bnd_def)

lemma bnd_eq_Inr: "bnd m f = Inr y \<longleftrightarrow> (\<exists>v. m = Inr v \<and> f v = Inr y)"
  by (cases m) simp_all

lemma length_be_bytes [simp]: "length (be_bytes n x) = n"
  by (induction n arbitrary: x) simp_all

subsection \<open>Byte strings and integers\<close>

lemma int_from_bytes_snoc: "int_from_bytes (bs @ [b]) = int_from_bytes bs * 256 + uint b"
  by (simp add: int_from_bytes_def)

lemma int_from_bytes_be_bytes: "int_from_bytes (be_bytes n x) = x mod 256 ^ n"
proof (induction n arbitrary: x)
  case 0
  then show ?case by (simp add: int_from_bytes_def)
next
  case (Suc n)
  have "uint (word_of_int (x mod 256) :: byte) = x mod 256"
    by (simp add: uint_word_of_int)
  then show ?case
    using Suc[of "x div 256"]
    by (simp add: int_from_bytes_snoc zmod_zmult2_eq[of "256 ^ n" x 256])
qed

lemma int_from_bytes_bounds: "0 \<le> int_from_bytes bs \<and> int_from_bytes bs < 256 ^ length bs"
proof (induction bs rule: rev_induct)
  case Nil
  then show ?case by (simp add: int_from_bytes_def)
next
  case (snoc b bs)
  have "uint b < 256" using uint_lt2p[of b] by simp
  moreover have "0 \<le> uint b" by simp
  ultimately show ?case using snoc
    by (simp add: int_from_bytes_snoc) 
qed

lemma be_bytes_int_from_bytes: "be_bytes (length bs) (int_from_bytes bs) = bs"
proof (induction bs rule: rev_induct)
  case Nil
  then show ?case by simp
next
  case (snoc b bs)
  have "uint b < 256" using uint_lt2p[of b] by simp
  then show ?case using snoc
    by (simp add: int_from_bytes_snoc)
qed

lemma int_to_bytes_Inr: "0 \<le> x \<Longrightarrow> x < 256 ^ n \<Longrightarrow> int_to_bytes x n = Inr (be_bytes n x)"
  by (simp add: int_to_bytes_def)

lemma int_from_bytes_be_bytes_id: "0 \<le> x \<Longrightarrow> x < 256 ^ n \<Longrightarrow> int_from_bytes (be_bytes n x) = x"
  by (simp add: int_from_bytes_be_bytes)

lemma assert_valid_iff:
  "assert_valid E k = Inr () \<longleftrightarrow> length (version k) = 4 \<and> key_invariants E k"
  unfolding assert_valid_def key_invariants_def
  by (auto simp: bnd_def split: sum.splits error.splits if_splits)

lemma deserialize_take: "deserialize E bs av = deserialize E (take 78 bs) av"
  by (simp add: deserialize_def stream_read_def Let_def take_drop min_def)

lemma assert_valid_plain: "assert_valid E (plain k) = assert_valid E k"
  by (simp add: assert_valid_def plain_def)

lemma serialize_valid:
  assumes "assert_valid E k = Inr ()"
  shows "serialize E k av = Inr (version k @ be_bytes 1 (depth k) @ parent_fingerprint k
            @ be_bytes 4 (index k) @ chain_code k @ key k)"
proof -
  from assms have inv: "key_invariants E k" by (simp add: assert_valid_iff)
  then have "int_to_bytes (depth k) 1 = Inr (be_bytes 1 (depth k))"
    and "int_to_bytes (index k) 4 = Inr (be_bytes 4 (index k))"
    by (simp_all add: key_invariants_def int_to_bytes_def)
  with assms show ?thesis by (simp add: serialize_def)
qed

lemma deserialize_fields:
  assumes "length v = 4" "length d = 1" "length f = 4" "length i = 4" "length c = 32"
  shows "deserialize E (v @ d @ f @ i @ c @ kb @ t) False =
     Inr \<lparr>version = v, depth = int_from_bytes d, parent_fingerprint = f,
          index = int_from_bytes i, chain_code = c, key = take 33 (kb @ t)\<rparr>"
  using assms by (simp add: deserialize_def stream_read_def)

lemma deserialize_True:
  "deserialize E bs True = bnd (deserialize E bs False) (\<lambda>k. bnd (assert_valid E k) (\<lambda>u. Inr k))"
  by (simp add: deserialize_def Let_def split_def)

lemma deserialize_serialize:
  assumes "assert_valid E k = Inr ()" and "serialize E k av = Inr bin"
  shows "deserialize E bin av' = Inr (plain k) \<and> length bin = 78"
proof -
  from assms(1) have inv: "key_invariants E k" and lv: "length (version k) = 4"
    by (simp_all add: assert_valid_iff)
  have bin: "bin = version k @ be_bytes 1 (depth k) @ parent_fingerprint k
            @ be_bytes 4 (index k) @ chain_code k @ key k"
    using serialize_valid[OF assms(1), of av] assms(2) by simp
  have d: "int_from_bytes (be_bytes 1 (depth k)) = depth k"
    using inv by (intro int_from_bytes_be_bytes_id) (simp_all add: key_invariants_def)
  have i: "int_from_bytes (be_bytes 4 (index k)) = index k"
    using inv by (intro int_from_bytes_be_bytes_id) (simp_all add: key_invariants_def)
  have "deserialize E bin False = Inr (plain k)"
    unfolding bin
    using deserialize_fields[of "version k" "be_bytes 1 (depth k)" "parent_fingerprint k"
        "be_bytes 4 (index k)" "chain_code k" E "key k" "[]"] inv lv d i
    by (simp add: key_invariants_def plain_def del: be_bytes.simps)
  then have "deserialize E bin av' = Inr (plain k)"
    using assms(1) by (cases av') (simp_all add: deserialize_True assert_valid_plain)
  moreover have "length bin = 78" unfolding bin using inv lv by (simp add: key_invariants_def)
  ultimately show ?thesis by simp
qed

subsection \<open>The small instance meets the expectations\<close>

lemma strip_id: "\<forall>c \<in> set s. \<not> is_space c \<Longrightarrow> strip s = s"
proof -
  assume a: "\<forall>c \<in> set s. \<not> is_space c"
  have dw: "\<And>t. \<forall>c \<in> set t. \<not> is_space c \<Longrightarrow> dropWhile is_space t = t"
    by (case_tac t) simp_all
  show ?thesis using a by (simp add: strip_def dw)
qed

lemma demo_digit_bounds:
  fixes b :: byte
  shows "65 \<le> 65 + b div 16" "65 + b div 16 < 81" "65 \<le> 65 + b mod 16" "65 + b mod 16 < 81"
proof -
  have lt: "unat b < 256" using unsigned_less[of b, where ?'a = nat] by simp
  then have d: "unat b div 16 < 16" by simp
  have m: "unat b mod 16 < 16" by simp
  have ud: "unat (65 + b div 16) = 65 + unat b div 16"
    using d by (simp add: unat_word_ariths unat_div)
  have um: "unat (65 + b mod 16) = 65 + unat b mod 16"
    using m by (simp add: unat_word_ariths unat_mod)
  show "65 \<le> 65 + b div 16" "65 + b div 16 < 81" "65 \<le> 65 + b mod 16" "65 + b mod 16 < 81"
    using d m by (simp_all add: word_le_nat_alt word_less_nat_alt ud um)
qed


lemma demo_unhex_encode: "demo_unhex (demo_b58encode bs) = Inr bs"
  by (induction bs) (simp_all add: demo_b58encode_def demo_digit_bounds div_mult_mod_eq)

lemma demo_encode_range: "c \<in> set (demo_b58encode bs) \<Longrightarrow> 65 \<le> c \<and> c < 81"
proof (induction bs)
  case Nil
  then show ?case by (simp add: demo_b58encode_def)
next
  case (Cons b bs)
  then have "c = 65 + b div 16 \<or> c = 65 + b mod 16 \<or> c \<in> set (demo_b58encode bs)"
    by (simp add: demo_b58encode_def)
  then show ?case using Cons.IH demo_digit_bounds[of b] by blast
qed

lemma of_nat_unat_mod_256: "(of_nat (unat b mod 256) :: byte) = b"
proof -
  have "unat b < 256" using unsigned_less[of b, where ?'a = nat] by simp
  then show ?thesis by simp
qed

lemma demo_letter_not_space:
  fixes c :: byte
  assumes "65 \<le> c" "c < 81"
  shows "\<not> is_space (char_of (unat c))"
proof -
  have "unat c < 256" using unsigned_less[of c, where ?'a = nat] by simp
  moreover have "65 \<le> unat c" "unat c < 81"
    using assms by (simp_all add: word_le_nat_alt word_less_nat_alt)
  ultimately show ?thesis by (auto simp: is_space_def of_char_of)
qed

lemma demo_base58_ok: "base58_ok demo"
proof -
  have a: "\<forall>b \<in> set (demo_b58encode bs). b < 128" for bs
  proof
    fix b assume "b \<in> set (demo_b58encode bs)"
    then have "b < 81" using demo_encode_range by blast
    then show "b < 128" by (simp add: word_less_nat_alt)
  qed
  have s: "strip (map (\<lambda>b. char_of (unat b)) (demo_b58encode bs))
            = map (\<lambda>b. char_of (unat b)) (demo_b58encode bs)" for bs
  proof (rule strip_id, rule ballI)
    fix c assume "c \<in> set (map (\<lambda>b. char_of (unat b)) (demo_b58encode bs))"
    then obtain b where "b \<in> set (demo_b58encode bs)" "c = char_of (unat b)" by auto
    then show "\<not> is_space c" using demo_encode_range[of b bs] demo_letter_not_space[of b] by simp
  qed
  have m: "map (\<lambda>c. of_nat (of_char c)) (map (\<lambda>b. char_of (unat b)) xs) = xs" for xs :: bytes
    by (induction xs) (simp_all add: of_nat_unat_mod_256)
  show ?thesis
    unfolding base58_ok_def
    by (simp add: demo_def a s m demo_unhex_encode del: map_map)
qed

lemma demo_hashes_ok: "hashes_ok demo"
  by (simp add: hashes_ok_def demo_def demo_hash160_def demo_hmac_sha512_def)

lemma demo_versions_ok: "versions_ok demo"
  by (simp add: versions_ok_def demo_def)

lemma demo_curve_ok: "curve_ok demo"
proof -
  have enc: "\<exists>bs. demo_bytes_from_point (a mod 13) = Inr bs \<and> length bs = 33 \<and> bs ! 0 \<in> {2, 3} \<and>
              \<not> isl (demo_ec_y (int_from_bytes (tl bs))) \<and>
              demo_point_from_octets bs = Inr (a mod 13)" if "a mod 13 \<noteq> 0" for a :: int
  proof -
    have "0 \<le> a mod 13" by simp
    then have r: "0 < a mod 13" "a mod 13 < 13" using that
      by simp_all
    have "(256::int) ^ 32 > 13" by simp
    then have i: "int_from_bytes (be_bytes 32 (a mod 13)) = a mod 13"
      using r by (intro int_from_bytes_be_bytes_id) simp_all
    show ?thesis
      using r i by (simp add: demo_bytes_from_point_def demo_ec_y_def demo_point_from_octets_def
          del: be_bytes.simps)
  qed
  have inf: "isl (demo_bytes_from_point 0)"
    by (simp add: demo_bytes_from_point_def)
  have enc': "\<exists>bs. bytes_from_point demo (mult demo a) = Inr bs \<and> length bs = 33 \<and>
              bs ! 0 \<in> {2, 3} \<and> \<not> isl (ec_y demo (int_from_bytes (tl bs))) \<and>
              point_from_octets demo bs = Inr (mult demo a)" if "a mod ec_n demo \<noteq> 0" for a
    using enc[of a] that by (simp add: demo_def)
  show ?thesis
    unfolding curve_ok_def
    by (intro conjI allI impI enc') (simp_all add: demo_def inf mod_add_eq)
qed

lemma demo_collaborators_ok: "collaborators_ok demo"
  by (simp add: collaborators_ok_def demo_curve_ok demo_hashes_ok demo_base58_ok demo_versions_ok)

lemma demo_xprv_valid: "assert_valid demo demo_xprv = Inr ()"
  by code_simp

lemma demo_xpub_valid: "assert_valid demo demo_xpub = Inr ()"
  by code_simp

subsection \<open>Validation and keys as text\<close>

lemma BIP32KeyData_init_True:
  "BIP32KeyData_init E v d f i c kb True = Inr k \<longleftrightarrow>
     k = \<lparr>version = v, depth = d, parent_fingerprint = f, index = i, chain_code = c, key = kb\<rparr>
     \<and> assert_valid E k = Inr ()"
  by (auto simp: BIP32KeyData_init_def Let_def bnd_eq_Inr)

lemma deserialize_True_valid: "deserialize E bs True = Inr k \<Longrightarrow> assert_valid E k = Inr ()"
  by (auto simp: deserialize_True bnd_eq_Inr)

lemma b58decode_True_valid: "b58decode E s True = Inr k \<Longrightarrow> assert_valid E k = Inr ()"
  by (auto simp: b58decode_def bnd_eq_Inr deserialize_True_valid split: if_splits)

lemma list_index_Inr: "list_index xs x = Inr i \<Longrightarrow> i < length xs \<and> xs ! i = x"
  by (induction xs arbitrary: i) (auto simp: bnd_eq_Inr split: if_splits)

lemma list_index_mem: "x \<in> set xs \<Longrightarrow> \<exists>i. list_index xs x = Inr i"
  by (induction xs) auto

lemma item0_Inr: "length xs = Suc n \<Longrightarrow> item0 xs = Inr (xs ! 0)"
  by (cases xs) (simp_all add: item0_def)

lemma key_data_KeyData [simp]: "key_data E (KeyData k) = Inr k"
  by (simp add: key_data_def)

lemma key_data_KeyString [simp]: "key_data E (KeyString s) = b58decode E s True"
  by (simp add: key_data_def)

lemma raise_with_key_valid:
  assumes "assert_valid E k = Inr ()" "base58_ok E"
  shows "raise_with_key E m k = Inl (BTClibValueError m)"
proof -
  obtain bin where "serialize E k True = Inr bin" using serialize_valid[OF assms(1)] by blast
  moreover have "\<forall>b \<in> set (base58_b58encode E bin). b < 128"
    using assms(2) unfolding base58_ok_def by blast
  ultimately show ?thesis
    by (simp add: raise_with_key_def b58encode_def decode_ascii_def)
qed

lemma valid_key_length: "assert_valid E k = Inr () \<Longrightarrow> length (key k) = 33"
  by (simp add: assert_valid_iff key_invariants_def)

lemma valid_item0: "assert_valid E k = Inr () \<Longrightarrow> item0 (key k) = Inr (key k ! 0)"
  using valid_key_length[of E k] item0_Inr[of "key k" 32] by simp

lemma ckd_depth_index:
  assumes "ckd E x i = Inr x'"
  shows "depth x' = depth x + 1 \<and> index x' = i \<and> version x' = version x"
  using assms unfolding ckd_def Let_def
  by (auto simp: bnd_eq_Inr split: if_splits)

lemma ckd_loop_depth_index:
  assumes "ckd_loop E x idx = Inr x'"
  shows "depth x' = depth x + int (length idx) \<and> version x' = version x
         \<and> index x' = (if idx = [] then index x else last idx)"
  using assms
proof (induction idx arbitrary: x)
  case Nil
  then show ?case by simp
next
  case (Cons i idx)
  then obtain y where y: "ckd E x i = Inr y" and r: "ckd_loop E y idx = Inr x'"
    by (auto simp: bnd_eq_Inr)
  from Cons.IH[OF r] ckd_depth_index[OF y] show ?case by auto
qed

lemma ExtendedBIP32KeyData_init_Inr:
  "ExtendedBIP32KeyData_init E v d f i c kb sc pt = Inr x \<longleftrightarrow>
     x = \<lparr>version = v, depth = d, parent_fingerprint = f, index = i, chain_code = c,
          key = kb, q = sc, Q = pt\<rparr> \<and> assert_valid E x = Inr ()"
  by (auto simp: ExtendedBIP32KeyData_init_def Let_def bnd_eq_Inr)

lemma assert_valid_extended [simp]: "assert_valid E (extended k sc pt) = assert_valid E k"
  by (simp add: assert_valid_def extended_def)

lemma plain_extended [simp]: "plain (extended k sc pt) = k"
  by (simp add: plain_def extended_def)

lemma extended_fields [simp]:
  "version (extended k sc pt) = version k" "depth (extended k sc pt) = depth k"
  "parent_fingerprint (extended k sc pt) = parent_fingerprint k"
  "index (extended k sc pt) = index k" "chain_code (extended k sc pt) = chain_code k"
  "key (extended k sc pt) = key k" "q (extended k sc pt) = sc" "Q (extended k sc pt) = pt"
  by (simp_all add: extended_def)

lemma derive_data_None_eq:
  assumes "key_data E xkey = Inr k" and "indexes_from_bip32_path E der_path = Inr indexes"
  shows "derive_data E xkey der_path None =
     (if depth k + int (length indexes) > 255 then Inl (BTClibValueError DepthOverflow)
      else bnd (item0 (key k)) (\<lambda>k0.
           bnd (if k0 = 0 then Inr (INF_point E) else point_from_octets E (key k)) (\<lambda>pt.
           bnd (assert_valid E k) (\<lambda>u.
           ckd_loop E (extended k (if k0 = 0 then int_from_bytes (tl (key k)) else 0) pt)
             indexes))))"
proof -
  have i: "ExtendedBIP32KeyData_init E (version k) (depth k) (parent_fingerprint k) (index k)
             (chain_code k) (key k) sc pt
           = bnd (assert_valid E k) (\<lambda>u. Inr (extended k sc pt))" for sc pt
    using assert_valid_extended[of E k sc pt]
    by (simp add: ExtendedBIP32KeyData_init_def extended_def)
  have e: "bnd m Inr = m" for m :: "error + 'c ExtendedBIP32KeyData"
    by (cases m) simp_all
  have b: "bnd (bnd m f) g = bnd m (\<lambda>v. bnd (f v) g)"
    for m :: "error + unit" and f :: "unit \<Rightarrow> error + 'c ExtendedBIP32KeyData"
      and g :: "'c ExtendedBIP32KeyData \<Rightarrow> error + 'c ExtendedBIP32KeyData"
    by (cases m) simp_all
  show ?thesis
    using assms by (simp add: derive_data_def Let_def i b e cong: if_cong)
qed

subsection \<open>Derivation from a private key\<close>

lemma n_bounds: "collaborators_ok E \<Longrightarrow> 1 < ec_n E \<and> ec_n E \<le> 256 ^ 32"
proof -
  have "(2::int) ^ 256 = 256 ^ 32" by simp
  then show "collaborators_ok E \<Longrightarrow> 1 < ec_n E \<and> ec_n E \<le> 256 ^ 32"
    by (simp add: collaborators_ok_def curve_ok_def)
qed

lemma scalar_bytes:
  assumes "collaborators_ok E" "0 \<le> s" "s < ec_n E"
  shows "int_to_bytes s 32 = Inr (be_bytes 32 s)" "int_from_bytes (be_bytes 32 s) = s"
proof -
  have "s < 256 ^ 32" using n_bounds[OF assms(1)] assms(3) by linarith
  then show "int_to_bytes s 32 = Inr (be_bytes 32 s)" "int_from_bytes (be_bytes 32 s) = s"
    using assms(2) by (simp_all add: int_to_bytes_def int_from_bytes_be_bytes_id)
qed

lemma point_bytes_zero:
  assumes "collaborators_ok E"
  shows "isl (bytes_from_point E (mult E 0))"
  using assms unfolding collaborators_ok_def curve_ok_def by (metis mod_0 order_refl)

lemma point_bytes:
  assumes "collaborators_ok E" "0 < s" "s < ec_n E"
  shows "\<exists>bs. bytes_from_point E (mult E s) = Inr bs \<and> length bs = 33 \<and> bs ! 0 \<in> {2, 3} \<and>
              \<not> isl (ec_y E (int_from_bytes (tl bs))) \<and>
              point_from_octets E bs = Inr (mult E s)"
proof -
  have "0 \<le> s" "s mod ec_n E \<noteq> 0" using assms(2,3) by simp_all
  then show ?thesis
    using assms(1) unfolding collaborators_ok_def curve_ok_def by blast
qed

lemma ckd_prv_fail:
  assumes ok: "collaborators_ok E" and inv: "prv_inv E x"
    and bad: "q x = 0 \<or> \<not> (0 \<le> i \<and> i < 2 ^ 32)"
  shows "isl (ckd E x i)"
proof -
  from inv have k0: "item0 (key x) = Inr 0" by (simp add: prv_inv_def item0_def)
  show ?thesis
  proof (cases "q x = 0")
    case True
    then obtain e where "bytes_from_point E (mult E (q x)) = Inl e"
      using point_bytes_zero[OF ok] by (cases "bytes_from_point E (mult E 0)") auto
    then show ?thesis using k0 by (simp add: ckd_def)
  next
    case False
    with bad have "int_to_bytes i 4 = Inl OverflowError" by (auto simp: int_to_bytes_def)
    then show ?thesis using k0
      by (cases "bytes_from_point E (mult E (q x))") (simp_all add: ckd_def Let_def)
  qed
qed

lemma ckd_prv_step:
  assumes ok: "collaborators_ok E" and inv: "prv_inv E x"
    and nz: "q x \<noteq> 0" and i: "0 \<le> i" "i < 2 ^ 32"
  shows "\<exists>Qb. bytes_from_point E (mult E (q x)) = Inr Qb \<and> ckd E x i = Inr (prv_child E x i Qb)"
proof -
  from inv have k0: "item0 (key x) = Inr 0" and qr: "0 \<le> q x" "q x < ec_n E"
    by (simp_all add: prv_inv_def item0_def)
  from point_bytes[OF ok, of "q x"] nz qr obtain Qb where
    Qb: "bytes_from_point E (mult E (q x)) = Inr Qb" by auto
  have ib: "int_to_bytes i 4 = Inr (be_bytes 4 i)" using i by (simp add: int_to_bytes_def)
  have n0: "ec_n E \<noteq> 0" "0 < ec_n E" using n_bounds[OF ok] by simp_all
  have qb: "int_to_bytes (s mod ec_n E) 32 = Inr (be_bytes 32 (s mod ec_n E))" for s
    using scalar_bytes(1)[OF ok, of "s mod ec_n E"] n0 by simp
  have "ckd E x i = Inr (prv_child E x i Qb)"
    using k0 Qb ib n0
    by (simp add: ckd_def Let_def py_mod_def qb prv_child_def is_hardened_def)
  with Qb show ?thesis by blast
qed

lemma prv_inv_child:
  assumes ok: "collaborators_ok E" and inv: "prv_inv E x" and i: "0 \<le> i" "i < 2 ^ 32"
  shows "prv_inv E (prv_child E x i Qb)"
proof -
  have n0: "0 < ec_n E" using n_bounds[OF ok] by simp
  have h: "length (hash160 E a) = 20" "length (hmac_sha512 E b c) = 64" for a b c
    using ok by (simp_all add: collaborators_ok_def hashes_ok_def)
  show ?thesis
    using inv i n0 by (simp add: prv_inv_def prv_child_def Let_def h)
qed

lemma assert_valid_prv_inv:
  assumes ok: "collaborators_ok E" and inv: "prv_inv E x"
  shows "assert_valid E x = Inr () \<longleftrightarrow> depth x \<le> 255 \<and> q x \<noteq> 0"
proof -
  from inv have "0 \<le> q x" "q x < ec_n E" by (simp_all add: prv_inv_def)
  then have r: "int_from_bytes (be_bytes 32 (q x)) = q x" using scalar_bytes(2)[OF ok] by simp
  have d: "tl (key x) = be_bytes 32 (q x)" "key x ! 0 = 0" "length (key x) = 33"
    using inv by (simp_all add: prv_inv_def)
  show ?thesis
    using inv unfolding assert_valid_iff key_invariants_def d r
    by (auto simp: prv_inv_def)
qed


lemma serialize_plain: "serialize E (plain k) av = serialize E k av"
  by (simp add: serialize_def assert_valid_plain) (simp add: plain_def)

lemma key_text_round_trip:
  assumes ok: "base58_ok E" and valid: "assert_valid E k = Inr ()"
  shows "\<exists>t. key_text E k = Inr t \<and> b58decode E (Str t) True = Inr (plain k)"
proof -
  obtain bin where ser: "serialize E k True = Inr bin"
    using serialize_valid[OF valid] by blast
  from deserialize_serialize[OF valid ser, of True]
  have des: "deserialize E bin True = Inr (plain k)" and len: "length bin = 78" by simp_all
  let ?b = "base58_b58encode E bin"
  let ?t = "map (\<lambda>b. char_of (unat b)) ?b"
  from ok have asc: "\<forall>b \<in> set ?b. b < 128"
    and rs: "base58_b58decode E (Str (strip ?t)) = Inr bin"
    unfolding base58_ok_def by blast+
  have "key_text E k = Inr ?t"
    using ser asc by (simp add: key_text_def b58encode_def decode_ascii_def)
  moreover have "b58decode E (Str ?t) True = Inr (plain k)"
    using rs des len by (simp add: b58decode_def)
  ultimately show ?thesis by blast
qed

lemma key_text_invalid: "assert_valid E k = Inl e \<Longrightarrow> key_text E k = Inl e"
  by (simp add: key_text_def b58encode_def serialize_def)

lemma key_text_plain: "key_text E (plain k) = key_text E k"
  by (simp add: key_text_def b58encode_def serialize_plain)

lemma derive_eq: "derive E xkey p fv = bnd (derive_data E xkey p fv) (key_text E)"
  by (simp add: derive_def key_text_def[abs_def])

lemma xpub_from_xprv_eq: "xpub_from_xprv E xkey = bnd (xpub_from_xprv_data E xkey) (key_text E)"
  by (simp add: xpub_from_xprv_def key_text_def[abs_def])

lemma ckd_loop_append:
  "ckd_loop E x (xs @ ys) = bnd (ckd_loop E x xs) (\<lambda>x1. ckd_loop E x1 ys)"
proof (induction xs arbitrary: x)
  case Nil
  then show ?case by simp
next
  case (Cons i xs)
  then show ?case by (cases "ckd E x i") simp_all
qed

lemma ckd_prv_inv:
  assumes ok: "collaborators_ok E" and inv: "prv_inv E x" and r: "ckd E x i = Inr y"
  shows "prv_inv E y"
proof -
  have g: "q x \<noteq> 0 \<and> 0 \<le> i \<and> i < 2 ^ 32"
    using ckd_prv_fail[OF ok inv, of i] r by auto
  then obtain Qb where "ckd E x i = Inr (prv_child E x i Qb)"
    using ckd_prv_step[OF ok inv, of i] by blast
  with r have "y = prv_child E x i Qb" by simp
  then show ?thesis using prv_inv_child[OF ok inv, of i Qb] g by simp
qed

lemma ckd_loop_prv_inv:
  assumes ok: "collaborators_ok E"
  shows "prv_inv E x \<Longrightarrow> ckd_loop E x idx = Inr y \<Longrightarrow> prv_inv E y"
proof (induction idx arbitrary: x)
  case Nil
  then show ?case by simp
next
  case (Cons i idx)
  then obtain z where z: "ckd E x i = Inr z" and l: "ckd_loop E z idx = Inr y"
    by (auto simp: bnd_eq_Inr)
  from ckd_prv_inv[OF ok Cons.prems(1) z] Cons.IH l show ?case by blast
qed

lemma ckd_loop_zero_scalar:
  assumes "collaborators_ok E" "prv_inv E x" "q x = 0" "idx \<noteq> []"
  shows "isl (ckd_loop E x idx)"
proof (cases idx)
  case Nil
  with assms(4) show ?thesis by simp
next
  case (Cons i rest)
  from ckd_prv_fail[OF assms(1,2), of i] assms(3)
  obtain e where "ckd E x i = Inl e" by (cases "ckd E x i") auto
  then show ?thesis using Cons by simp
qed

lemma prv_start:
  assumes ok: "collaborators_ok E" and valid: "assert_valid E k = Inr ()"
    and prv: "version k \<in> set (XPRV_VERSIONS_ALL E)"
  shows "prv_inv E (extended k (int_from_bytes (tl (key k))) (INF_point E))"
    and "item0 (key k) = Inr 0"
proof -
  from valid prv have inv: "key_invariants E k" and lv: "length (version k) = 4"
    by (simp_all add: assert_valid_iff)
  from inv prv have kl: "length (key k) = 33" and k0: "key k ! 0 = 0"
    by (simp_all add: key_invariants_def)
  then have "key k = 0 # tl (key k)" by (cases "key k") simp_all
  moreover have "be_bytes 32 (int_from_bytes (tl (key k))) = tl (key k)"
    using be_bytes_int_from_bytes[of "tl (key k)"] kl by simp
  ultimately have ke: "key k = 0 # be_bytes 32 (int_from_bytes (tl (key k)))" by simp
  show "prv_inv E (extended k (int_from_bytes (tl (key k))) (INF_point E))"
    using inv prv lv ke unfolding prv_inv_def key_invariants_def by simp
  show "item0 (key k) = Inr 0" using valid_item0[OF valid] k0 by simp
qed

lemma derive_data_prv:
  assumes ok: "collaborators_ok E" and valid: "assert_valid E k = Inr ()"
    and prv: "version k \<in> set (XPRV_VERSIONS_ALL E)"
    and kd: "key_data E xkey = Inr k" and p: "indexes_from_bip32_path E der_path = Inr idx"
  shows "derive_data E xkey der_path None =
     (if depth k + int (length idx) > 255 then Inl (BTClibValueError DepthOverflow)
      else ckd_loop E (extended k (int_from_bytes (tl (key k))) (INF_point E)) idx)"
  using prv_start(2)[OF ok valid prv] valid
  by (simp add: derive_data_None_eq[OF kd p])

lemma extended_plain:
  fixes x :: "'pt ExtendedBIP32KeyData"
  shows "extended (plain x) (q x) (Q x) = x"
  by (simp add: extended_def plain_def)

lemma derive_data_resume:
  fixes x :: "'pt ExtendedBIP32KeyData"
  assumes ok: "collaborators_ok E" and inv: "prv_inv E x" and valid: "assert_valid E x = Inr ()"
    and t: "key_text E x = Inr t" and p: "indexes_from_bip32_path E der_path = Inr idx"
  shows "derive_data E (KeyString (Str t)) der_path None =
     (if depth x + int (length idx) > 255 then Inl (BTClibValueError DepthOverflow)
      else ckd_loop E x idx)"
proof -
  have b: "base58_ok E" using ok by (simp add: collaborators_ok_def)
  from key_text_round_trip[OF b valid] t
  have kd: "key_data E (KeyString (Str t)) = Inr (plain x)" by auto
  have v: "assert_valid E (plain x) = Inr ()" using valid by (simp add: assert_valid_plain)
  have pv: "version (plain x) \<in> set (XPRV_VERSIONS_ALL E)"
    using inv by (simp add: prv_inv_def plain_def)
  from inv have "0 \<le> q x" "q x < ec_n E" "tl (key x) = be_bytes 32 (q x)"
    "Q x = INF_point E" by (simp_all add: prv_inv_def)
  then have e: "extended (plain x) (int_from_bytes (tl (key (plain x)))) (INF_point E) = x"
    using scalar_bytes(2)[OF ok, of "q x"] extended_plain[of x] by (simp add: plain_def)
  show ?thesis
    using derive_data_prv[OF ok v pv kd p] e by (simp add: plain_def)
qed

lemma same_result:
  fixes a b :: "error + 'a"
  shows "a = b \<Longrightarrow> (isl a \<and> isl b) \<or> (\<exists>t. a = Inr t \<and> b = Inr t)"
  by (cases b) auto

subsection \<open>Neutering and the public branch\<close>

lemma neuter_prv:
  fixes k :: BIP32KeyData
  assumes ok: "collaborators_ok E" and valid: "assert_valid E k = Inr ()"
    and prv: "version k \<in> set (XPRV_VERSIONS_ALL E)" and kd: "key_data E xk = Inr k"
  shows "\<exists>j Qb. list_index (XPRV_VERSIONS_ALL E) (version k) = Inr j
           \<and> bytes_from_point E (mult E (int_from_bytes (tl (key k)))) = Inr Qb
           \<and> xpub_from_xprv_data E xk = Inr (k\<lparr>version := XPUB_VERSIONS_ALL E ! j, key := Qb\<rparr>)
           \<and> assert_valid E (k\<lparr>version := XPUB_VERSIONS_ALL E ! j, key := Qb\<rparr>) = Inr ()
           \<and> length Qb = 33 \<and> Qb ! 0 \<in> {2, 3}
           \<and> point_from_octets E Qb = Inr (mult E (int_from_bytes (tl (key k))))"
proof -
  let ?s = "int_from_bytes (tl (key k))"
  from valid prv have inv: "key_invariants E k" and lv: "length (version k) = 4"
    by (simp_all add: assert_valid_iff)
  from inv prv have z: "key k ! 0 = 0" and r: "0 < ?s" "?s < ec_n E"
    by (simp_all add: key_invariants_def)
  have k0: "item0 (key k) = Inr 0" using valid_item0[OF valid] z by simp
  obtain j where j: "list_index (XPRV_VERSIONS_ALL E) (version k) = Inr j"
    using list_index_mem[OF prv] by blast
  have vs: "versions_ok E" using ok by (simp add: collaborators_ok_def)
  have jl: "j < length (XPUB_VERSIONS_ALL E)"
    using list_index_Inr[OF j] vs by (simp add: versions_ok_def)
  then have it: "item (XPUB_VERSIONS_ALL E) j = Inr (XPUB_VERSIONS_ALL E ! j)"
    by (simp add: item_def)
  have mem: "XPUB_VERSIONS_ALL E ! j \<in> set (XPUB_VERSIONS_ALL E)" using jl by simp
  then have pubv: "XPUB_VERSIONS_ALL E ! j \<notin> set (XPRV_VERSIONS_ALL E)"
    "length (XPUB_VERSIONS_ALL E ! j) = 4"
    using vs unfolding versions_ok_def by blast+
  from point_bytes[OF ok r] obtain Qb where
    Qb: "bytes_from_point E (mult E ?s) = Inr Qb" "length Qb = 33" "Qb ! 0 \<in> {2, 3}"
      "\<not> isl (ec_y E (int_from_bytes (tl Qb)))" "point_from_octets E Qb = Inr (mult E ?s)"
    by blast
  from Qb(4) obtain y where y: "ec_y E (int_from_bytes (tl Qb)) = Inr y"
    by (cases "ec_y E (int_from_bytes (tl Qb))") auto
  have x: "xpub_from_xprv_data E xk = Inr (k\<lparr>version := XPUB_VERSIONS_ALL E ! j, key := Qb\<rparr>)"
    using kd k0 j it Qb(1) by (simp add: xpub_from_xprv_data_def)
  have v: "assert_valid E (k\<lparr>version := XPUB_VERSIONS_ALL E ! j, key := Qb\<rparr>) = Inr ()"
    using inv mem pubv Qb(2,3) y unfolding assert_valid_iff key_invariants_def by simp
  from j Qb x v show ?thesis by blast
qed

lemma ckd_pub:
  assumes "item0 (key x) = Inr b" and "b \<noteq> 0"
  shows "ckd E x i =
     (if i \<ge> 0x80000000 then Inl (BTClibValueError HardenedFromPublicKey)
      else bnd (int_to_bytes i 4) (\<lambda>ib.
           bnd (bytes_from_point E
                  (ec_add E (Q x)
                     (mult E (int_from_bytes (take 32
                        (hmac_sha512 E (chain_code x) (key x @ ib))))))) (\<lambda>kb.
           Inr (x\<lparr>depth := depth x + 1, index := i,
                  parent_fingerprint := take 4 (hash160 E (key x)),
                  chain_code := drop 32 (hmac_sha512 E (chain_code x) (key x @ ib)),
                  Q := ec_add E (Q x)
                     (mult E (int_from_bytes (take 32
                        (hmac_sha512 E (chain_code x) (key x @ ib))))),
                  key := kb, q := 0\<rparr>))))"
  using assms by (simp add: ckd_def Let_def is_hardened_def)

lemma derive_public_hardened:
  assumes kd: "key_data E xk = Inr k" and valid: "assert_valid E k = Inr ()"
    and pub: "key k ! 0 \<noteq> 0" and d: "depth k < 255"
    and p: "indexes_from_bip32_path E der_path = Inr [i]" and h: "i \<ge> 0x80000000"
    and pt: "point_from_octets E (key k) = Inr P"
  shows "derive E xk der_path None = Inl (BTClibValueError HardenedFromPublicKey)"
proof -
  have k0: "item0 (key k) = Inr (key k ! 0)" using valid by (rule valid_item0)
  have kx: "item0 (key (extended k 0 P)) = Inr (key k ! 0)" using k0 by simp
  have "ckd E (extended k 0 P) i = Inl (BTClibValueError HardenedFromPublicKey)"
    using ckd_pub[OF kx pub, of E i] h by simp
  then have "derive_data E xk der_path None = Inl (BTClibValueError HardenedFromPublicKey)"
    using k0 pub d pt valid by (simp add: derive_data_None_eq[OF kd p])
  then show ?thesis by (simp add: derive_eq)
qed


lemma derive_data_prv_one:
  assumes ok: "collaborators_ok E" and valid: "assert_valid E k = Inr ()"
    and prv: "version k \<in> set (XPRV_VERSIONS_ALL E)" and kd: "key_data E xk = Inr k"
    and p: "indexes_from_bip32_path E der_path = Inr [i]"
    and d: "depth k < 255" and i: "0 \<le> i" "i < 2 ^ 32"
  shows "\<exists>Qb. bytes_from_point E (mult E (int_from_bytes (tl (key k)))) = Inr Qb
          \<and> derive_data E xk der_path None
              = Inr (prv_child E (extended k (int_from_bytes (tl (key k))) (INF_point E))
                       i Qb)"
proof -
  let ?x0 = "extended k (int_from_bytes (tl (key k))) (INF_point E)"
  have inv0: "prv_inv E ?x0" using prv_start(1)[OF ok valid prv] .
  from valid prv have "0 < int_from_bytes (tl (key k))"
    by (simp add: assert_valid_iff key_invariants_def)
  then have nz: "q ?x0 \<noteq> 0" by simp
  from ckd_prv_step[OF ok inv0 nz i] obtain Qb where
    Qb: "bytes_from_point E (mult E (q ?x0)) = Inr Qb" "ckd E ?x0 i = Inr (prv_child E ?x0 i Qb)"
    by blast
  have "derive_data E xk der_path None = Inr (prv_child E ?x0 i Qb)"
    using d Qb(2) by (simp add: derive_data_prv[OF ok valid prv kd p])
  with Qb(1) show ?thesis by auto
qed

lemma neuter_then_derive_hardened:
  fixes k :: BIP32KeyData
  assumes ok: "collaborators_ok E" and valid: "assert_valid E k = Inr ()"
    and prv: "version k \<in> set (XPRV_VERSIONS_ALL E)" and d: "depth k < 255"
    and p: "indexes_from_bip32_path E hp = Inr [h]" and h: "h \<ge> 0x80000000"
  shows "bnd (xpub_from_xprv E (KeyData k)) (\<lambda>t. derive E (KeyString (Str t)) hp None)
           = Inl (BTClibValueError HardenedFromPublicKey)"
proof -
  have b: "base58_ok E" using ok by (simp add: collaborators_ok_def)
  have kd: "key_data E (KeyData k) = Inr k" by simp
  from neuter_prv[OF ok valid prv kd] obtain j Qb where
    px: "xpub_from_xprv_data E (KeyData k)
          = Inr (k\<lparr>version := XPUB_VERSIONS_ALL E ! j, key := Qb\<rparr>)"
    and pv: "assert_valid E (k\<lparr>version := XPUB_VERSIONS_ALL E ! j, key := Qb\<rparr>) = Inr ()"
    and q0: "Qb ! 0 \<in> {2, 3}"
    and pt: "point_from_octets E Qb = Inr (mult E (int_from_bytes (tl (key k))))"
    by blast
  let ?p = "k\<lparr>version := XPUB_VERSIONS_ALL E ! j, key := Qb\<rparr>"
  from key_text_round_trip[OF b pv] obtain t where
    t: "key_text E ?p = Inr t" and dec: "b58decode E (Str t) True = Inr ?p"
    by (auto simp: plain_def)
  have kd': "key_data E (KeyString (Str t)) = Inr ?p" using dec by simp
  have nz: "key ?p ! 0 \<noteq> 0" using q0 by auto
  have "derive E (KeyString (Str t)) hp None = Inl (BTClibValueError HardenedFromPublicKey)"
    using derive_public_hardened[OF kd' pv nz _ p h, of "mult E (int_from_bytes (tl (key k)))"]
      d pt by simp
  then show ?thesis using px t by (simp add: xpub_from_xprv_eq)
qed

lemma bnd_Inr_right: "bnd m Inr = m"
  by (cases m) simp_all

lemma isl_bnd_left: "isl m \<Longrightarrow> isl (bnd m f)"
  by (cases m) simp_all

lemma raise_with_key_isl: "isl (raise_with_key E m k :: error + 'a)"
proof (cases "b58encode E k True")
  case (Inl e)
  then show ?thesis by (simp add: raise_with_key_def)
next
  case (Inr b)
  then show ?thesis by (cases "decode_ascii b") (simp_all add: raise_with_key_def)
qed

lemma raise_with_key_invalid:
  "assert_valid E k = Inl e \<Longrightarrow> raise_with_key E m k = Inl e"
  by (simp add: raise_with_key_def b58encode_def serialize_def)

lemma item0_nonempty: "xs \<noteq> [] \<Longrightarrow> item0 xs = Inr (xs ! 0)"
  by (cases xs) (simp_all add: item0_def)

section \<open>The claims\<close>

subsection \<open>C10: \<open>deserialize\<close> reads a prefix\<close>

text \<open>
  C10. \<open>deserialize\<close> does not reject over-long input: for a byte string of at least 78
  bytes whose first 78 bytes deserialize (with validation) to a key, \<open>deserialize\<close>
  returns that same key, whatever follows the prefix. Only \<open>b58decode\<close> insists on a
  decoded length of exactly 78 bytes.
\<close>

theorem deserialize_ignores_trailing_bytes:
  "(78 \<le> length bs \<and> deserialize E (take 78 bs) True = Inr k
      \<longrightarrow> deserialize E bs True = Inr k) \<and>
   (base58_b58decode E (case s of Str t \<Rightarrow> Str (strip t) | Bytes b \<Rightarrow> Bytes b) = Inr d
      \<and> length d \<noteq> 78
      \<longrightarrow> b58decode E s True = Inl (BTClibValueError InvalidDecodedLength))"
  using deserialize_take[of E bs True] by (simp add: b58decode_def)

theorem deserialize_ignores_trailing_bytes_witness:
  "78 \<le> length (demo_xprv_bin @ [1, 2, 3])
   \<and> deserialize demo (take 78 (demo_xprv_bin @ [1, 2, 3])) True = Inr demo_xprv
   \<and> deserialize demo (demo_xprv_bin @ [1, 2, 3]) True = Inr demo_xprv
   \<and> base58_b58decode demo (Bytes [65, 66]) = Inr [1] \<and> length [1 :: byte] \<noteq> 78
   \<and> b58decode demo (Bytes [65, 66]) True = Inl (BTClibValueError InvalidDecodedLength)"
proof -
  have h1: "78 \<le> length (demo_xprv_bin @ [1, 2, 3])
    \<and> deserialize demo (take 78 (demo_xprv_bin @ [1, 2, 3])) True = Inr demo_xprv"
    by code_simp
  have h2: "base58_b58decode demo (Bytes [65, 66]) = Inr [1] \<and> length [1 :: byte] \<noteq> 78"
    by code_simp
  from deserialize_ignores_trailing_bytes[where bs = "demo_xprv_bin @ [1, 2, 3]" and E = demo
      and k = demo_xprv and s = "Bytes [65, 66]" and d = "[1]"]
    h1 h2 show ?thesis by simp
qed

subsection \<open>C7: validated keys satisfy the invariants\<close>

text \<open>
  C7. Validation succeeds exactly on the keys that satisfy the invariants of the data
  model (and whose version has 4 bytes): known version, depth in 0..255, fingerprint of
  4 bytes, index in 0..0xFFFFFFFF, chain code of 32 bytes, key of 33 bytes, a private
  version with key byte 0 and scalar in 1..n-1, a public version with key byte 2 or 3 and
  an x-coordinate accepted by \<open>ec.y\<close>, depth 0 only with zero fingerprint and index.
  So whatever the validating constructor, \<open>deserialize\<close> or \<open>b58decode\<close> return
  satisfies them.
\<close>
theorem validated_keys_satisfy_invariants:
  "(assert_valid E k = Inr () \<longleftrightarrow> length (version k) = 4 \<and> key_invariants E k) \<and>
   (BIP32KeyData_init E v d f i c kb True = Inr k1 \<longrightarrow> key_invariants E k1) \<and>
   (deserialize E bin True = Inr k2 \<longrightarrow> key_invariants E k2) \<and>
   (b58decode E s True = Inr k3 \<longrightarrow> key_invariants E k3)"
  using assert_valid_iff[of E k] assert_valid_iff[of E k1] assert_valid_iff[of E k2]
    assert_valid_iff[of E k3] deserialize_True_valid[of E bin k2] b58decode_True_valid[of E s k3]
  by (auto simp: BIP32KeyData_init_True)

theorem validated_keys_satisfy_invariants_witness:
  "assert_valid demo demo_xprv = Inr () \<and> length (version demo_xprv) = 4
   \<and> key_invariants demo demo_xprv
   \<and> BIP32KeyData_init demo [4, 136, 178, 30] 0 [0, 0, 0, 0] 0 (replicate 32 7)
        (3 # be_bytes 32 5) True = Inr demo_xpub
   \<and> key_invariants demo demo_xpub
   \<and> deserialize demo demo_xprv_bin True = Inr demo_xprv
   \<and> b58decode demo (Bytes (demo_b58encode demo_xprv_bin)) True = Inr demo_xprv"
proof -
  have h1: "assert_valid demo demo_xprv = Inr ()" by code_simp
  have h2: "BIP32KeyData_init demo [4, 136, 178, 30] 0 [0, 0, 0, 0] 0 (replicate 32 7)
        (3 # be_bytes 32 5) True = Inr demo_xpub" by code_simp
  have h3: "deserialize demo demo_xprv_bin True = Inr demo_xprv" by code_simp
  have h4: "b58decode demo (Bytes (demo_b58encode demo_xprv_bin)) True = Inr demo_xprv"
    by code_simp
  from validated_keys_satisfy_invariants[where E = demo and k = demo_xprv and ?k1.0 = demo_xpub
      and ?k2.0 = demo_xprv and ?k3.0 = demo_xprv and bin = demo_xprv_bin
      and s = "Bytes (demo_b58encode demo_xprv_bin)" and v = "[4, 136, 178, 30]" and d = 0
      and f = "[0, 0, 0, 0]" and i = 0 and c = "replicate 32 7" and kb = "3 # be_bytes 32 5"]
    h1 h2 h3 h4
  show ?thesis by blast
qed

subsection \<open>C3: serialization round trip\<close>

text \<open>
  C3. For every key that passes validation, \<open>serialize\<close> gives 78 bytes which
  \<open>deserialize\<close> maps back to the key; and when Base58Check decoding inverts its
  encoding, \<open>b58decode\<close> maps the result of \<open>b58encode\<close> back to the key, from the
  \<open>bytes\<close> object and from its ASCII text.
\<close>
theorem serialization_round_trip:
  fixes k :: BIP32KeyData
  assumes "assert_valid E k = Inr ()"
  shows "(\<exists>bin. serialize E k True = Inr bin \<and> length bin = 78 \<and> deserialize E bin True = Inr k)
    \<and> (base58_ok E \<longrightarrow>
         (\<exists>b t. b58encode E k True = Inr b \<and> b58decode E (Bytes b) True = Inr k
               \<and> decode_ascii b = Inr t \<and> b58decode E (Str t) True = Inr k))"
proof -
  let ?bin = "version k @ be_bytes 1 (depth k) @ parent_fingerprint k
            @ be_bytes 4 (index k) @ chain_code k @ key k"
  have ser: "serialize E k True = Inr ?bin" using assms by (rule serialize_valid)
  have pk: "plain k = k" by (simp add: plain_def)
  have des: "deserialize E ?bin True = Inr k" "length ?bin = 78"
    using deserialize_serialize[OF assms ser, of True] by (simp_all add: pk)
  have a: "\<exists>bin. serialize E k True = Inr bin \<and> length bin = 78 \<and> deserialize E bin True = Inr k"
    using ser des by blast
  have b: "\<exists>b t. b58encode E k True = Inr b \<and> b58decode E (Bytes b) True = Inr k
               \<and> decode_ascii b = Inr t \<and> b58decode E (Str t) True = Inr k" if ok: "base58_ok E"
  proof -
    let ?b = "base58_b58encode E ?bin"
    let ?t = "map (\<lambda>b. char_of (unat b)) ?b"
    from ok have asc: "\<forall>b \<in> set ?b. b < 128"
      and rb: "base58_b58decode E (Bytes ?b) = Inr ?bin"
      and rs: "base58_b58decode E (Str (strip ?t)) = Inr ?bin"
      unfolding base58_ok_def by blast+
    have "b58encode E k True = Inr ?b" using ser by (simp add: b58encode_def)
    moreover have "b58decode E (Bytes ?b) True = Inr k"
      using rb des by (simp add: b58decode_def)
    moreover have "decode_ascii ?b = Inr ?t" using asc by (simp add: decode_ascii_def)
    moreover have "b58decode E (Str ?t) True = Inr k"
      using rs des by (simp add: b58decode_def)
    ultimately show ?thesis by blast
  qed
  from a b show ?thesis by blast
qed

theorem serialization_round_trip_witness:
  "assert_valid demo demo_xprv = Inr () \<and> base58_ok demo
   \<and> serialize demo demo_xprv True = Inr demo_xprv_bin
   \<and> deserialize demo demo_xprv_bin True = Inr demo_xprv
   \<and> (\<exists>b. b58encode demo demo_xprv True = Inr b \<and> b58decode demo (Bytes b) True = Inr demo_xprv)"
proof -
  have h: "assert_valid demo demo_xprv = Inr ()" by code_simp
  have s: "serialize demo demo_xprv True = Inr demo_xprv_bin" by code_simp
  from serialization_round_trip[OF h] demo_base58_ok h s show ?thesis by auto
qed

subsection \<open>C9: the root key\<close>

text \<open>
  C9. Once the seed is read as bytes, \<open>_rootxprv_from_seed\<close> raises "too few bits" for a
  seed of less than 128 bits and "too many bits" for one of more than 512 bits. For a
  seed in range it raises "unknown private key version" when the 4-byte version is not
  in the private table. Otherwise it builds, through the validating constructor, the
  key of depth 0, zero parent fingerprint, index 0, key 0x00 followed by the left 32
  bytes of the HMAC-SHA512 of the seed under "Bitcoin seed", and chain code the
  remaining bytes: whatever it returns is that key, and it returns it when the left
  half is a scalar in 1..n-1 (the digest having 64 bytes and the version 4).
\<close>

theorem rootxprv_from_seed_result:
  assumes "bytes_from_octets E seed None = Inr s"
  shows
   "(int (length s) * 8 < 128 \<longrightarrow>
       rootxprv_from_seed_data E seed vers = Inl (BTClibValueError SeedTooShort)) \<and>
    (int (length s) * 8 > 512 \<longrightarrow>
       rootxprv_from_seed_data E seed vers = Inl (BTClibValueError SeedTooLong)) \<and>
    (128 \<le> int (length s) * 8 \<and> int (length s) * 8 \<le> 512
       \<and> bytes_from_octets E vers (Some 4) = Inr v \<and> v \<notin> set (XPRV_VERSIONS_ALL E) \<longrightarrow>
       rootxprv_from_seed_data E seed vers = Inl (BTClibValueError UnknownPrivateVersion)) \<and>
    (128 \<le> int (length s) * 8 \<and> int (length s) * 8 \<le> 512
       \<and> bytes_from_octets E vers (Some 4) = Inr v \<and> v \<in> set (XPRV_VERSIONS_ALL E)
       \<and> rootxprv_from_seed_data E seed vers = Inr k \<longrightarrow>
       k = \<lparr>version = v, depth = 0, parent_fingerprint = [0, 0, 0, 0], index = 0,
            chain_code = drop 32 (hmac_sha512 E bitcoin_seed s),
            key = 0 # take 32 (hmac_sha512 E bitcoin_seed s)\<rparr>) \<and>
    (128 \<le> int (length s) * 8 \<and> int (length s) * 8 \<le> 512
       \<and> bytes_from_octets E vers (Some 4) = Inr v \<and> v \<in> set (XPRV_VERSIONS_ALL E)
       \<and> length v = 4 \<and> length (hmac_sha512 E bitcoin_seed s) = 64
       \<and> 0 < int_from_bytes (take 32 (hmac_sha512 E bitcoin_seed s))
       \<and> int_from_bytes (take 32 (hmac_sha512 E bitcoin_seed s)) < ec_n E \<longrightarrow>
       rootxprv_from_seed_data E seed vers =
         Inr \<lparr>version = v, depth = 0, parent_fingerprint = [0, 0, 0, 0], index = 0,
              chain_code = drop 32 (hmac_sha512 E bitcoin_seed s),
              key = 0 # take 32 (hmac_sha512 E bitcoin_seed s)\<rparr>)"
proof -
  let ?h = "hmac_sha512 E bitcoin_seed s"
  let ?k = "\<lambda>v. \<lparr>version = v, depth = 0, parent_fingerprint = [0, 0, 0, 0], index = 0,
              chain_code = drop 32 ?h, key = 0 # take 32 ?h\<rparr>"
  have valid: "assert_valid E (?k v) = Inr ()"
    if "v \<in> set (XPRV_VERSIONS_ALL E)" "length v = 4" "length ?h = 64"
      "0 < int_from_bytes (take 32 ?h)" "int_from_bytes (take 32 ?h) < ec_n E"
    using that by (simp add: assert_valid_iff key_invariants_def)
  show ?thesis
    using assms valid
    by (auto simp: rootxprv_from_seed_data_def Let_def BIP32KeyData_init_def bnd_eq_Inr)
qed

theorem rootxprv_from_seed_result_witness:
  "bytes_from_octets demo (Bytes (replicate 15 0)) None = Inr (replicate 15 0)
   \<and> rootxprv_from_seed_data demo (Bytes (replicate 15 0)) (Bytes [4, 136, 173, 228])
        = Inl (BTClibValueError SeedTooShort)
   \<and> bytes_from_octets demo (Bytes (replicate 65 0)) None = Inr (replicate 65 0)
   \<and> rootxprv_from_seed_data demo (Bytes (replicate 65 0)) (Bytes [4, 136, 173, 228])
        = Inl (BTClibValueError SeedTooLong)
   \<and> bytes_from_octets demo (Bytes demo_seed) None = Inr demo_seed
   \<and> rootxprv_from_seed_data demo (Bytes demo_seed) (Bytes [4, 136, 178, 30])
        = Inl (BTClibValueError UnknownPrivateVersion)
   \<and> rootxprv_from_seed_data demo (Bytes demo_seed) (Bytes [4, 136, 173, 228])
        = Inr \<lparr>version = [4, 136, 173, 228], depth = 0, parent_fingerprint = [0, 0, 0, 0],
               index = 0, chain_code = drop 32 (hmac_sha512 demo bitcoin_seed demo_seed),
               key = 0 # take 32 (hmac_sha512 demo bitcoin_seed demo_seed)\<rparr>"
proof -
  have s1: "bytes_from_octets demo (Bytes (replicate 15 0)) None = Inr (replicate 15 0)"
    by (simp add: demo_def)
  have s2: "bytes_from_octets demo (Bytes (replicate 65 0)) None = Inr (replicate 65 0)"
    by (simp add: demo_def)
  have s3: "bytes_from_octets demo (Bytes demo_seed) None = Inr demo_seed"
    by (simp add: demo_def)
  have v1: "bytes_from_octets demo (Bytes [4, 136, 178, 30]) (Some 4) = Inr [4, 136, 178, 30]
     \<and> [4, 136, 178, 30] \<notin> set (XPRV_VERSIONS_ALL demo)"
    by (simp add: demo_def)
  have v2: "bytes_from_octets demo (Bytes [4, 136, 173, 228]) (Some 4) = Inr [4, 136, 173, 228]
     \<and> [4, 136, 173, 228] \<in> set (XPRV_VERSIONS_ALL demo) \<and> length [4, 136, 173, 228 :: byte] = 4"
    by (simp add: demo_def)
  have l: "128 \<le> int (length demo_seed) * 8 \<and> int (length demo_seed) * 8 \<le> 512"
    "int (length (replicate 15 (0::byte))) * 8 < 128" "int (length (replicate 65 (0::byte))) * 8 > 512"
    by (simp_all add: demo_seed_def)
  have h: "length (hmac_sha512 demo bitcoin_seed demo_seed) = 64
       \<and> 0 < int_from_bytes (take 32 (hmac_sha512 demo bitcoin_seed demo_seed))
       \<and> int_from_bytes (take 32 (hmac_sha512 demo bitcoin_seed demo_seed)) < ec_n demo"
    by code_simp
  have a: "rootxprv_from_seed_data demo (Bytes (replicate 15 0)) (Bytes [4, 136, 173, 228])
        = Inl (BTClibValueError SeedTooShort)"
    using rootxprv_from_seed_result[OF s1, of "Bytes [4, 136, 173, 228]"] l by simp
  have b: "rootxprv_from_seed_data demo (Bytes (replicate 65 0)) (Bytes [4, 136, 173, 228])
        = Inl (BTClibValueError SeedTooLong)"
    using rootxprv_from_seed_result[OF s2, of "Bytes [4, 136, 173, 228]"] l by simp
  have c: "rootxprv_from_seed_data demo (Bytes demo_seed) (Bytes [4, 136, 178, 30])
        = Inl (BTClibValueError UnknownPrivateVersion)"
    using rootxprv_from_seed_result[OF s3, of "Bytes [4, 136, 178, 30]" "[4, 136, 178, 30]"]
      l(1) v1 by blast
  have d: "rootxprv_from_seed_data demo (Bytes demo_seed) (Bytes [4, 136, 173, 228])
        = Inr \<lparr>version = [4, 136, 173, 228], depth = 0, parent_fingerprint = [0, 0, 0, 0],
               index = 0, chain_code = drop 32 (hmac_sha512 demo bitcoin_seed demo_seed),
               key = 0 # take 32 (hmac_sha512 demo bitcoin_seed demo_seed)\<rparr>"
    using rootxprv_from_seed_result[OF s3, of "Bytes [4, 136, 173, 228]" "[4, 136, 173, 228]"]
      l(1) v2 h by blast
  from a b c d s1 s2 s3
  show ?thesis by blast
qed

subsection \<open>C6: depth of a derived key\<close>

text \<open>
  C6. For a start key \<open>k\<close> and a path parsed into \<open>L\<close> indexes: when
  \<open>depth k + L > 255\<close>, \<open>_derive\<close> raises "final depth greater than 255", whatever the
  collaborators of the derivation steps do; and every key that \<open>_derive\<close> returns
  (without a forced version) has \<open>depth k + L \<le> 255\<close>, depth \<open>depth k + L\<close>, the version
  of \<open>k\<close> and as index the last index of the path, or the index of \<open>k\<close> when the path is
  empty.
\<close>

theorem derive_depth:
  assumes "key_data E xkey = Inr k" and "indexes_from_bip32_path E der_path = Inr indexes"
  shows
   "(depth k + int (length indexes) > 255 \<longrightarrow>
       derive_data E xkey der_path fv = Inl (BTClibValueError DepthOverflow)) \<and>
    (derive_data E xkey der_path None = Inr x \<longrightarrow>
       depth k + int (length indexes) \<le> 255 \<and> depth x = depth k + int (length indexes)
       \<and> version x = version k
       \<and> index x = (if indexes = [] then index k else last indexes))"
proof -
  have a: "derive_data E xkey der_path fv = Inl (BTClibValueError DepthOverflow)"
    if "depth k + int (length indexes) > 255"
    using assms that by (simp add: derive_data_def)
  have b: "depth k + int (length indexes) \<le> 255 \<and> depth x = depth k + int (length indexes)
       \<and> version x = version k
       \<and> index x = (if indexes = [] then index k else last indexes)"
    if r: "derive_data E xkey der_path None = Inr x"
  proof -
    from r assms have le: "depth k + int (length indexes) \<le> 255"
      by (auto simp: derive_data_def Let_def split: if_splits)
    from r le obtain sc pt where l: "ckd_loop E (extended k sc pt) indexes = Inr x"
      unfolding derive_data_None_eq[OF assms] by (auto simp: bnd_eq_Inr split: if_splits)
    have x0: "depth (extended k sc pt) = depth k \<and> index (extended k sc pt) = index k
       \<and> version (extended k sc pt) = version k" by simp
    from ckd_loop_depth_index[OF l] x0 le show ?thesis by simp
  qed
  from a b show ?thesis by blast
qed

theorem derive_depth_witness:
  "key_data demo (KeyData demo_xprv) = Inr demo_xprv
   \<and> indexes_from_bip32_path demo [0x80000000, 1] = Inr [0x80000000, 1]
   \<and> (\<exists>x. derive_data demo (KeyData demo_xprv) [0x80000000, 1] None = Inr x
          \<and> depth x = 2 \<and> index x = 1)
   \<and> depth (demo_xprv\<lparr>depth := 255\<rparr>) + int (length [3 :: int]) > 255
   \<and> derive_data demo (KeyData (demo_xprv\<lparr>depth := 255\<rparr>)) [3] None
        = Inl (BTClibValueError DepthOverflow)"
proof -
  have k: "key_data demo (KeyData demo_xprv) = Inr demo_xprv"
    and k': "key_data demo (KeyData (demo_xprv\<lparr>depth := 255\<rparr>)) = Inr (demo_xprv\<lparr>depth := 255\<rparr>)"
    by simp_all
  have p: "indexes_from_bip32_path demo [0x80000000, 1] = Inr [0x80000000, 1]"
    and p': "indexes_from_bip32_path demo [3] = Inr [3]"
    by (simp_all add: demo_def)
  have r: "\<not> isl (derive_data demo (KeyData demo_xprv) [0x80000000, 1] None)"
    by code_simp
  then obtain x where x: "derive_data demo (KeyData demo_xprv) [0x80000000, 1] None = Inr x"
    by (cases "derive_data demo (KeyData demo_xprv) [0x80000000, 1] None") auto
  have d0: "depth demo_xprv = 0" by (simp add: demo_xprv_def)
  have "depth x = 2 \<and> index x = 1"
    using derive_depth[OF k p, of None x] x d0 by simp
  moreover have "depth (demo_xprv\<lparr>depth := 255\<rparr>) + int (length [3 :: int]) > 255" by simp
  moreover have "derive_data demo (KeyData (demo_xprv\<lparr>depth := 255\<rparr>)) [3] None
        = Inl (BTClibValueError DepthOverflow)"
    using derive_depth[OF k' p', of None] by simp
  ultimately show ?thesis using k p x by blast
qed

subsection \<open>C2: recovering the parent private key\<close>

text \<open>
  C2. Let \<open>k\<close> be a valid private extended key and \<open>i\<close> a non-hardened index for which
  \<open>derive(k, "m/" + i)\<close> returns a child. Then \<open>xpub_from_xprv(k)\<close> returns, and
  \<open>crack_prv_key\<close> applied to it and to the child returns the text of \<open>k\<close> itself, which
  decodes to \<open>k\<close>: the parent scalar is the child scalar minus the left half of the
  digest, modulo the order, and all other fields are those of the parent. (That the
  child is returned implies that the depth of \<open>k\<close> is below 255.)
\<close>

theorem crack_recovers_parent:
  fixes k :: BIP32KeyData
  assumes ok: "collaborators_ok E" and valid: "assert_valid E k = Inr ()"
    and prv: "version k \<in> set (XPRV_VERSIONS_ALL E)"
    and p: "indexes_from_bip32_path E der_path = Inr [i]"
    and i: "0 \<le> i" "i < 0x80000000"
    and c: "derive E (KeyData k) der_path None = Inr child"
  shows "\<exists>parent t. xpub_from_xprv E (KeyData k) = Inr parent
           \<and> crack_prv_key E (KeyString (Str parent)) (KeyString (Str child)) = Inr t
           \<and> key_text E k = Inr t \<and> b58decode E (Str t) True = Inr k"
proof -
  let ?s = "int_from_bytes (tl (key k))"
  let ?x0 = "extended k ?s (INF_point E)"
  have b: "base58_ok E" using ok by (simp add: collaborators_ok_def)
  have kd: "key_data E (KeyData k) = Inr k" by simp
  have i32: "i < 2 ^ 32" using i(2) by simp
  from valid prv have inv: "key_invariants E k"
    and s: "0 < ?s" "?s < ec_n E" and kl: "length (key k) = 33" and kz: "key k ! 0 = 0"
    by (simp_all add: assert_valid_iff key_invariants_def)
  have d: "depth k < 255"
  proof (rule ccontr)
    assume "\<not> depth k < 255"
    then have "derive E (KeyData k) der_path None = Inl (BTClibValueError DepthOverflow)"
      by (simp add: derive_eq derive_data_prv[OF ok valid prv kd p])
    with c show False by simp
  qed
  \<comment> \<open>the child\<close>
  from derive_data_prv_one[OF ok valid prv kd p d i(1) i32] obtain Qb where
    Qb: "bytes_from_point E (mult E ?s) = Inr Qb"
    and dd: "derive_data E (KeyData k) der_path None = Inr (prv_child E ?x0 i Qb)" by blast
  let ?c = "prv_child E ?x0 i Qb"
  let ?h = "hmac_sha512 E (chain_code k) (Qb @ be_bytes 4 i)"
  let ?q' = "(?s + int_from_bytes (take 32 ?h)) mod ec_n E"
  have ct: "key_text E ?c = Inr child" using c dd by (simp add: derive_eq)
  have cv: "assert_valid E ?c = Inr ()"
  proof (cases "assert_valid E ?c")
    case (Inl e)
    then show ?thesis using key_text_invalid[OF Inl] ct by simp
  next
    case (Inr u)
    then show ?thesis by simp
  qed
  from key_text_round_trip[OF b cv] ct
  have cdec: "b58decode E (Str child) True = Inr (plain ?c)" by auto
  have n0: "0 < ec_n E" using n_bounds[OF ok] by simp
  have q'r: "0 \<le> ?q'" "?q' < ec_n E" using n0 by simp_all
  have cf: "key (plain ?c) = 0 # be_bytes 32 ?q'" "depth (plain ?c) = depth k + 1"
    "index (plain ?c) = i" "version (plain ?c) = version k"
    "parent_fingerprint (plain ?c) = take 4 (hash160 E Qb)"
    using i(2) by (simp_all add: plain_def prv_child_def Let_def)
  \<comment> \<open>the neutered parent\<close>
  from neuter_prv[OF ok valid prv kd] Qb obtain j where
    px: "xpub_from_xprv_data E (KeyData k)
          = Inr (k\<lparr>version := XPUB_VERSIONS_ALL E ! j, key := Qb\<rparr>)"
    and pv: "assert_valid E (k\<lparr>version := XPUB_VERSIONS_ALL E ! j, key := Qb\<rparr>) = Inr ()"
    and ql: "length Qb = 33" and q0: "Qb ! 0 \<in> {2, 3}"
    by auto
  let ?p = "k\<lparr>version := XPUB_VERSIONS_ALL E ! j, key := Qb\<rparr>"
  from key_text_round_trip[OF b pv] obtain parent where
    pt: "key_text E ?p = Inr parent" and pdec: "b58decode E (Str parent) True = Inr ?p"
    by (auto simp: plain_def)
  have xp: "xpub_from_xprv E (KeyData k) = Inr parent"
    using px pt by (simp add: xpub_from_xprv_eq)
  \<comment> \<open>the recovered key\<close>
  from key_text_round_trip[OF b valid] obtain t where
    t: "key_text E k = Inr t" and tdec: "b58decode E (Str t) True = Inr k"
    by (auto simp: plain_def)
  have p0: "item0 (key ?p) = Inr (Qb ! 0)" using item0_Inr[of Qb 32] ql by simp
  have c0: "item0 (key (plain ?c)) = Inr 0" by (simp only: cf(1) item0_def list.case)
  have ib: "int_to_bytes i 4 = Inr (be_bytes 4 i)" using i by (simp add: int_to_bytes_def)
  have cq: "int_from_bytes (tl (key (plain ?c))) = ?q'"
    using scalar_bytes(2)[OF ok q'r] by (simp add: cf)
  have "(?q' - int_from_bytes (take 32 ?h)) mod ec_n E = ?s mod ec_n E"
    by (simp add: mod_diff_left_eq)
  then have pq: "py_mod (?q' - int_from_bytes (take 32 ?h)) (ec_n E) = Inr ?s"
    using s n0 by (simp add: py_mod_def)
  have sb: "int_to_bytes ?s 32 = Inr (be_bytes 32 ?s)"
    using scalar_bytes(1)[OF ok, of ?s] s by simp
  have "be_bytes 32 ?s = tl (key k)"
    using be_bytes_int_from_bytes[of "tl (key k)"] kl by simp
  moreover have "key k = 0 # tl (key k)" using kl kz by (cases "key k") simp_all
  ultimately have kk: "0 # be_bytes 32 ?s = key k" by simp
  have same: "k\<lparr>version := XPUB_VERSIONS_ALL E ! j, key := Qb, version := version k,
                 key := key k\<rparr> = k" by simp
  have q0': "(Qb ! 0 \<noteq> 2 \<and> Qb ! 0 \<noteq> 3) \<longleftrightarrow> False" using q0 by auto
  have qq: "int_from_bytes (be_bytes 32 ?q') = ?q'" using scalar_bytes(2)[OF ok q'r] .
  have "crack_prv_key E (KeyString (Str parent)) (KeyString (Str child)) = key_text E k"
    using pdec cdec p0 c0 i(2) ib
    by (simp add: crack_prv_key_def cf is_hardened_def Let_def q0' qq pq sb kk
        key_text_def del: be_bytes.simps)
  with xp t tdec show ?thesis by auto
qed

theorem crack_recovers_parent_witness:
  "collaborators_ok demo \<and> assert_valid demo demo_xprv = Inr ()
   \<and> version demo_xprv \<in> set (XPRV_VERSIONS_ALL demo)
   \<and> indexes_from_bip32_path demo [3] = Inr [3] \<and> (0 :: int) \<le> 3 \<and> (3 :: int) < 0x80000000
   \<and> (\<exists>child parent t.
          derive demo (KeyData demo_xprv) [3] None = Inr child
          \<and> xpub_from_xprv demo (KeyData demo_xprv) = Inr parent
          \<and> crack_prv_key demo (KeyString (Str parent)) (KeyString (Str child)) = Inr t
          \<and> key_text demo demo_xprv = Inr t
          \<and> b58decode demo (Str t) True = Inr demo_xprv)"
proof -
  have v: "version demo_xprv \<in> set (XPRV_VERSIONS_ALL demo)" by code_simp
  have p: "indexes_from_bip32_path demo [3] = Inr [3]" by (simp add: demo_def)
  have "\<not> isl (derive demo (KeyData demo_xprv) [3] None)" by code_simp
  then obtain child where c: "derive demo (KeyData demo_xprv) [3] None = Inr child"
    by (cases "derive demo (KeyData demo_xprv) [3] None") auto
  have i: "(0 :: int) \<le> 3" "(3 :: int) < 0x80000000" by simp_all
  from crack_recovers_parent[OF demo_collaborators_ok demo_xprv_valid v p i c] c
  have "\<exists>child parent t.
          derive demo (KeyData demo_xprv) [3] None = Inr child
          \<and> xpub_from_xprv demo (KeyData demo_xprv) = Inr parent
          \<and> crack_prv_key demo (KeyString (Str parent)) (KeyString (Str child)) = Inr t
          \<and> key_text demo demo_xprv = Inr t
          \<and> b58decode demo (Str t) True = Inr demo_xprv"
    by blast
  then show ?thesis using demo_collaborators_ok demo_xprv_valid v p by simp
qed

subsection \<open>C8: neutering\<close>

text \<open>
  C8, as amended. \<open>_xpub_from_xprv\<close> returns only the input with two fields replaced:
  the version by the entry of the public table at the position of the key's version in
  the private table, and the key by the encoding of the public point of the scalar;
  depth, index, parent fingerprint and chain code are those of the input. For a valid
  private extended key (and well-behaved collaborators) it does return. For an input
  that passes validation and whose key byte 0 is not 0 it raises "not a private key".
  For an input that does not pass validation and whose key byte 0 is not 0, it raises
  the validation error, since the message is built from the encoded key.
\<close>

theorem neutering_changes_version_and_key_only:
  assumes "key_data E xprv = Inr k"
  shows
   "(xpub_from_xprv_data E xprv = Inr x \<longrightarrow>
       depth x = depth k \<and> index x = index k \<and> parent_fingerprint x = parent_fingerprint k
       \<and> chain_code x = chain_code k
       \<and> (\<exists>i. list_index (XPRV_VERSIONS_ALL E) (version k) = Inr i
               \<and> version x = XPUB_VERSIONS_ALL E ! i)
       \<and> bytes_from_point E (mult E (int_from_bytes (tl (key k)))) = Inr (key x)) \<and>
    (collaborators_ok E \<and> assert_valid E k = Inr ()
       \<and> version k \<in> set (XPRV_VERSIONS_ALL E) \<longrightarrow>
       (\<exists>i kb. list_index (XPRV_VERSIONS_ALL E) (version k) = Inr i
          \<and> bytes_from_point E (mult E (int_from_bytes (tl (key k)))) = Inr kb
          \<and> xpub_from_xprv_data E xprv
              = Inr (k\<lparr>version := XPUB_VERSIONS_ALL E ! i, key := kb\<rparr>))) \<and>
    (assert_valid E k = Inr () \<and> base58_ok E \<and> key k ! 0 \<noteq> 0 \<longrightarrow>
       xpub_from_xprv_data E xprv = Inl (BTClibValueError NotAPrivateKey)) \<and>
    (assert_valid E k = Inl e \<and> key k \<noteq> [] \<and> key k ! 0 \<noteq> 0 \<longrightarrow>
       xpub_from_xprv_data E xprv = Inl e)"
proof -
  have nr: "raise_with_key E NotAPrivateKey k \<noteq> (Inr x :: error + BIP32KeyData)"
    using raise_with_key_isl[of E NotAPrivateKey k, where ?'a = BIP32KeyData] by auto
  have a: "xpub_from_xprv_data E xprv = Inr x \<longrightarrow>
       depth x = depth k \<and> index x = index k \<and> parent_fingerprint x = parent_fingerprint k
       \<and> chain_code x = chain_code k
       \<and> (\<exists>i. list_index (XPRV_VERSIONS_ALL E) (version k) = Inr i
               \<and> version x = XPUB_VERSIONS_ALL E ! i)
       \<and> bytes_from_point E (mult E (int_from_bytes (tl (key k)))) = Inr (key x)"
    using assms nr
    by (auto simp: xpub_from_xprv_data_def bnd_eq_Inr item_def split: if_splits)
  have b: "\<exists>i kb. list_index (XPRV_VERSIONS_ALL E) (version k) = Inr i
          \<and> bytes_from_point E (mult E (int_from_bytes (tl (key k)))) = Inr kb
          \<and> xpub_from_xprv_data E xprv
              = Inr (k\<lparr>version := XPUB_VERSIONS_ALL E ! i, key := kb\<rparr>)"
    if "collaborators_ok E" "assert_valid E k = Inr ()" "version k \<in> set (XPRV_VERSIONS_ALL E)"
    using neuter_prv[OF that assms] by blast
  have c: "xpub_from_xprv_data E xprv = Inl (BTClibValueError NotAPrivateKey)"
    if "assert_valid E k = Inr ()" "base58_ok E" "key k ! 0 \<noteq> 0"
    using assms valid_item0[OF that(1)] that(3) raise_with_key_valid[OF that(1,2)]
    by (simp add: xpub_from_xprv_data_def)
  have d: "xpub_from_xprv_data E xprv = Inl e"
    if "assert_valid E k = Inl e" "key k \<noteq> []" "key k ! 0 \<noteq> 0"
    using assms item0_nonempty[OF that(2)] that(3) raise_with_key_invalid[OF that(1)]
    by (simp add: xpub_from_xprv_data_def)
  from a b c d show ?thesis by blast
qed

theorem neutering_changes_version_and_key_only_witness:
  "key_data demo (KeyData demo_xprv) = Inr demo_xprv \<and> assert_valid demo demo_xprv = Inr ()
   \<and> collaborators_ok demo \<and> version demo_xprv \<in> set (XPRV_VERSIONS_ALL demo)
   \<and> xpub_from_xprv_data demo (KeyData demo_xprv) = Inr demo_xpub
   \<and> depth demo_xpub = depth demo_xprv \<and> chain_code demo_xpub = chain_code demo_xprv
   \<and> key_data demo (KeyData demo_xpub) = Inr demo_xpub \<and> assert_valid demo demo_xpub = Inr ()
   \<and> base58_ok demo \<and> key demo_xpub ! 0 \<noteq> 0
   \<and> xpub_from_xprv_data demo (KeyData demo_xpub) = Inl (BTClibValueError NotAPrivateKey)
   \<and> key_data demo (KeyData demo_unchecked_prv) = Inr demo_unchecked_prv
   \<and> assert_valid demo demo_unchecked_prv = Inl (BTClibValueError InvalidPrivateKeyPrefix)
   \<and> key demo_unchecked_prv \<noteq> [] \<and> key demo_unchecked_prv ! 0 \<noteq> 0
   \<and> xpub_from_xprv_data demo (KeyData demo_unchecked_prv)
        = Inl (BTClibValueError InvalidPrivateKeyPrefix)"
proof -
  have h1: "key_data demo (KeyData demo_xprv) = Inr demo_xprv" by simp
  have h2: "key_data demo (KeyData demo_xpub) = Inr demo_xpub" by simp
  have h3: "key_data demo (KeyData demo_unchecked_prv) = Inr demo_unchecked_prv" by simp
  have v: "version demo_xprv \<in> set (XPRV_VERSIONS_ALL demo)" by code_simp
  have r: "xpub_from_xprv_data demo (KeyData demo_xprv) = Inr demo_xpub" by code_simp
  have nz: "key demo_xpub ! 0 \<noteq> 0" by code_simp
  have u: "assert_valid demo demo_unchecked_prv = Inl (BTClibValueError InvalidPrivateKeyPrefix)
     \<and> key demo_unchecked_prv \<noteq> [] \<and> key demo_unchecked_prv ! 0 \<noteq> 0"
    by code_simp
  note ok = demo_base58_ok
  have a: "depth demo_xpub = depth demo_xprv \<and> chain_code demo_xpub = chain_code demo_xprv"
    using neutering_changes_version_and_key_only[OF h1, of demo_xpub] r by blast
  have b: "xpub_from_xprv_data demo (KeyData demo_xpub) = Inl (BTClibValueError NotAPrivateKey)"
    using neutering_changes_version_and_key_only[OF h2, of demo_xpub] demo_xpub_valid ok nz
    by blast
  have c: "xpub_from_xprv_data demo (KeyData demo_unchecked_prv)
        = Inl (BTClibValueError InvalidPrivateKeyPrefix)"
    using neutering_changes_version_and_key_only[OF h3, of demo_xpub
        "BTClibValueError InvalidPrivateKeyPrefix"] u
    by blast
  show ?thesis
    using a b c h1 h2 h3 v r nz u ok demo_collaborators_ok demo_xprv_valid demo_xpub_valid
    by simp
qed

text \<open>
  C8 as stated fails for an object built without validation: \<open>demo_unchecked_prv\<close> has
  key byte 0 equal to 2, and \<open>_xpub_from_xprv\<close> raises "invalid private key prefix",
  from the validation inside \<open>xkey.b58encode()\<close>, not "not a private key".
\<close>

theorem neutering_of_unchecked_key:
  "key demo_unchecked_prv ! 0 = 2
   \<and> xpub_from_xprv_data demo (KeyData demo_unchecked_prv)
        = Inl (BTClibValueError InvalidPrivateKeyPrefix)
   \<and> xpub_from_xprv_data demo (KeyData demo_unchecked_prv)
        \<noteq> Inl (BTClibValueError NotAPrivateKey)"
proof -
  have a: "key demo_unchecked_prv ! 0 = 2" by code_simp
  have b: "xpub_from_xprv_data demo (KeyData demo_unchecked_prv)
        = Inl (BTClibValueError InvalidPrivateKeyPrefix)" by code_simp
  from a b show ?thesis by simp
qed

subsection \<open>C4: the checks of \<open>crack_prv_key\<close>\<close>

text \<open>
  C4, as amended. \<open>crack_prv_key\<close> checks its arguments in a fixed order and raises at
  the first check that fails. For a parent that passes validation and whose key byte 0
  is not 2 or 3 it raises "extended parent key is not a public key". When the parent
  key byte 0 is 2 or 3: for a child that passes validation and whose key byte 0 is not
  0 it raises "extended child key is not a private key"; when the child key byte 0 is
  0, it raises "wrong depths" if the child depth is not the parent depth plus one,
  otherwise "wrong parent fingerprint" if the child fingerprint is not the first 4
  bytes of the hash of the parent key, otherwise "hardened child derivation" if the
  child index is at least 0x80000000. No call with a hardened child returns a key.
\<close>

theorem crack_prv_key_checks:
  assumes "key_data E parent_xpub = Inr p" and "key_data E child_xprv = Inr c"
  shows
   "(assert_valid E p = Inr () \<and> base58_ok E \<and> key p ! 0 \<notin> {2, 3} \<longrightarrow>
       crack_prv_key E parent_xpub child_xprv = Inl (BTClibValueError NotAPublicKey)) \<and>
    (key p \<noteq> [] \<and> key p ! 0 \<in> {2, 3}
       \<and> assert_valid E c = Inr () \<and> base58_ok E \<and> key c ! 0 \<noteq> 0 \<longrightarrow>
       crack_prv_key E parent_xpub child_xprv = Inl (BTClibValueError ChildNotAPrivateKey)) \<and>
    (key p \<noteq> [] \<and> key p ! 0 \<in> {2, 3} \<and> key c \<noteq> [] \<and> key c ! 0 = 0
       \<and> depth c \<noteq> depth p + 1 \<longrightarrow>
       crack_prv_key E parent_xpub child_xprv = Inl (BTClibValueError WrongDepths)) \<and>
    (key p \<noteq> [] \<and> key p ! 0 \<in> {2, 3} \<and> key c \<noteq> [] \<and> key c ! 0 = 0
       \<and> depth c = depth p + 1
       \<and> parent_fingerprint c \<noteq> take 4 (hash160 E (key p)) \<longrightarrow>
       crack_prv_key E parent_xpub child_xprv
         = Inl (BTClibValueError WrongParentFingerprint)) \<and>
    (key p \<noteq> [] \<and> key p ! 0 \<in> {2, 3} \<and> key c \<noteq> [] \<and> key c ! 0 = 0
       \<and> depth c = depth p + 1
       \<and> parent_fingerprint c = take 4 (hash160 E (key p)) \<and> index c \<ge> 0x80000000 \<longrightarrow>
       crack_prv_key E parent_xpub child_xprv = Inl (BTClibValueError HardenedChild)) \<and>
    (index c \<ge> 0x80000000 \<longrightarrow> isl (crack_prv_key E parent_xpub child_xprv))"
proof -
  have a: "crack_prv_key E parent_xpub child_xprv = Inl (BTClibValueError NotAPublicKey)"
    if "assert_valid E p = Inr ()" "base58_ok E" "key p ! 0 \<notin> {2, 3}"
  proof -
    have "raise_with_key E NotAPublicKey p
            = (Inl (BTClibValueError NotAPublicKey) :: error + string)"
      using raise_with_key_valid[OF that(1,2)] .
    then show ?thesis
      using assms(1) valid_item0[OF that(1)] that(3) by (auto simp: crack_prv_key_def)
  qed
  have b: "crack_prv_key E parent_xpub child_xprv = Inl (BTClibValueError ChildNotAPrivateKey)"
    if "key p \<noteq> []" "key p ! 0 \<in> {2, 3}" "assert_valid E c = Inr ()" "base58_ok E"
      "key c ! 0 \<noteq> 0"
  proof -
    have "raise_with_key E ChildNotAPrivateKey c
            = (Inl (BTClibValueError ChildNotAPrivateKey) :: error + string)"
      using raise_with_key_valid[OF that(3,4)] .
    then show ?thesis
      using assms item0_nonempty[OF that(1)] that(2) valid_item0[OF that(3)] that(5)
      by (auto simp: crack_prv_key_def)
  qed
  have rest: "crack_prv_key E parent_xpub child_xprv =
      (if depth c \<noteq> depth p + 1 then Inl (BTClibValueError WrongDepths)
       else if parent_fingerprint c \<noteq> take 4 (hash160 E (key p))
         then Inl (BTClibValueError WrongParentFingerprint)
       else if index c \<ge> 0x80000000 then Inl (BTClibValueError HardenedChild)
       else crack_prv_key E parent_xpub child_xprv)"
    if "key p \<noteq> []" "key p ! 0 \<in> {2, 3}" "key c \<noteq> []" "key c ! 0 = 0"
    using assms item0_nonempty[OF that(1)] that(2) item0_nonempty[OF that(3)] that(4)
    by (auto simp: crack_prv_key_def is_hardened_def)
  have never: "isl (crack_prv_key E parent_xpub child_xprv)" if h: "index c \<ge> 0x80000000"
  proof (cases "key p = []")
    case True
    then show ?thesis using assms(1) by (simp add: crack_prv_key_def item0_def)
  next
    case pk: False
    show ?thesis
    proof (cases "key p ! 0 \<in> {2, 3}")
      case False
      then show ?thesis
        using assms(1) item0_nonempty[OF pk]
          raise_with_key_isl[of E NotAPublicKey p]
        by (auto simp: crack_prv_key_def)
    next
      case p23: True
      show ?thesis
      proof (cases "key c = []")
        case True
        then show ?thesis using assms item0_nonempty[OF pk] p23
          by (auto simp: crack_prv_key_def item0_def)
      next
        case ck: False
        show ?thesis
        proof (cases "key c ! 0 = 0")
          case False
          then show ?thesis
            using assms item0_nonempty[OF pk] p23 item0_nonempty[OF ck]
              raise_with_key_isl[of E ChildNotAPrivateKey c]
            by (auto simp: crack_prv_key_def)
        next
          case True
          from rest[OF pk p23 ck True] h show ?thesis
            by (cases "depth c \<noteq> depth p + 1";
                cases "parent_fingerprint c \<noteq> take 4 (hash160 E (key p))") simp_all
        qed
      qed
    qed
  qed
  have c3: "crack_prv_key E parent_xpub child_xprv = Inl (BTClibValueError WrongDepths)"
    if "key p \<noteq> []" "key p ! 0 \<in> {2, 3}" "key c \<noteq> []" "key c ! 0 = 0"
      "depth c \<noteq> depth p + 1"
    using rest[OF that(1-4)] that(5) by simp
  have c4: "crack_prv_key E parent_xpub child_xprv
              = Inl (BTClibValueError WrongParentFingerprint)"
    if "key p \<noteq> []" "key p ! 0 \<in> {2, 3}" "key c \<noteq> []" "key c ! 0 = 0"
      "depth c = depth p + 1" "parent_fingerprint c \<noteq> take 4 (hash160 E (key p))"
    using rest[OF that(1-4)] that(5,6) by simp
  have c5: "crack_prv_key E parent_xpub child_xprv = Inl (BTClibValueError HardenedChild)"
    if "key p \<noteq> []" "key p ! 0 \<in> {2, 3}" "key c \<noteq> []" "key c ! 0 = 0"
      "depth c = depth p + 1" "parent_fingerprint c = take 4 (hash160 E (key p))"
      "index c \<ge> 0x80000000"
    using rest[OF that(1-4)] that(5,6,7) by simp
  from a b c3 c4 c5 never show ?thesis by blast
qed

theorem crack_prv_key_checks_witness:
  "key_data demo (KeyData demo_xpub) = Inr demo_xpub
   \<and> key_data demo (KeyData demo_child_h) = Inr demo_child_h
   \<and> key demo_xpub \<noteq> [] \<and> key demo_xpub ! 0 \<in> {2, 3}
   \<and> key demo_child_h \<noteq> [] \<and> key demo_child_h ! 0 = 0
   \<and> depth demo_child_h = depth demo_xpub + 1
   \<and> parent_fingerprint demo_child_h = take 4 (hash160 demo (key demo_xpub))
   \<and> index demo_child_h \<ge> 0x80000000
   \<and> crack_prv_key demo (KeyData demo_xpub) (KeyData demo_child_h)
        = Inl (BTClibValueError HardenedChild)
   \<and> assert_valid demo demo_xprv = Inr () \<and> base58_ok demo \<and> key demo_xprv ! 0 \<notin> {2, 3}
   \<and> crack_prv_key demo (KeyData demo_xprv) (KeyData demo_child_h)
        = Inl (BTClibValueError NotAPublicKey)
   \<and> assert_valid demo demo_xpub = Inr () \<and> key demo_xpub ! 0 \<noteq> 0
   \<and> crack_prv_key demo (KeyData demo_xpub) (KeyData demo_xpub)
        = Inl (BTClibValueError ChildNotAPrivateKey)
   \<and> key demo_xprv \<noteq> [] \<and> key demo_xprv ! 0 = 0 \<and> depth demo_xprv \<noteq> depth demo_xpub + 1
   \<and> crack_prv_key demo (KeyData demo_xpub) (KeyData demo_xprv)
        = Inl (BTClibValueError WrongDepths)
   \<and> parent_fingerprint (demo_child_h\<lparr>parent_fingerprint := [0, 0, 0, 0]\<rparr>)
        \<noteq> take 4 (hash160 demo (key demo_xpub))
   \<and> crack_prv_key demo (KeyData demo_xpub)
          (KeyData (demo_child_h\<lparr>parent_fingerprint := [0, 0, 0, 0]\<rparr>))
        = Inl (BTClibValueError WrongParentFingerprint)"
proof -
  have kp: "key_data demo (KeyData demo_xpub) = Inr demo_xpub"
    and kq: "key_data demo (KeyData demo_xprv) = Inr demo_xprv"
    and kc: "key_data demo (KeyData demo_child_h) = Inr demo_child_h"
    and kf: "key_data demo (KeyData (demo_child_h\<lparr>parent_fingerprint := [0, 0, 0, 0]\<rparr>))
             = Inr (demo_child_h\<lparr>parent_fingerprint := [0, 0, 0, 0]\<rparr>)"
    by simp_all
  have f: "key demo_xpub \<noteq> [] \<and> key demo_xpub ! 0 \<in> {2, 3}
     \<and> key demo_child_h \<noteq> [] \<and> key demo_child_h ! 0 = 0
     \<and> depth demo_child_h = depth demo_xpub + 1
     \<and> parent_fingerprint demo_child_h = take 4 (hash160 demo (key demo_xpub))
     \<and> index demo_child_h \<ge> 0x80000000
     \<and> key demo_xprv ! 0 \<notin> {2, 3} \<and> key demo_xpub ! 0 \<noteq> 0
     \<and> key demo_xprv \<noteq> [] \<and> key demo_xprv ! 0 = 0
     \<and> depth demo_xprv \<noteq> depth demo_xpub + 1"
    by code_simp
  have g: "key (demo_child_h\<lparr>parent_fingerprint := [0, 0, 0, 0]\<rparr>) \<noteq> []
     \<and> key (demo_child_h\<lparr>parent_fingerprint := [0, 0, 0, 0]\<rparr>) ! 0 = 0
     \<and> depth (demo_child_h\<lparr>parent_fingerprint := [0, 0, 0, 0]\<rparr>) = depth demo_xpub + 1
     \<and> parent_fingerprint (demo_child_h\<lparr>parent_fingerprint := [0, 0, 0, 0]\<rparr>)
        \<noteq> take 4 (hash160 demo (key demo_xpub))"
    by code_simp
  note ok = demo_base58_ok
  have a: "crack_prv_key demo (KeyData demo_xpub) (KeyData demo_child_h)
        = Inl (BTClibValueError HardenedChild)"
    using crack_prv_key_checks[OF kp kc] f by blast
  have b: "crack_prv_key demo (KeyData demo_xprv) (KeyData demo_child_h)
        = Inl (BTClibValueError NotAPublicKey)"
    using crack_prv_key_checks[OF kq kc] f demo_xprv_valid ok by blast
  have c: "crack_prv_key demo (KeyData demo_xpub) (KeyData demo_xpub)
        = Inl (BTClibValueError ChildNotAPrivateKey)"
    using crack_prv_key_checks[OF kp kp] f demo_xpub_valid ok by blast
  have d: "crack_prv_key demo (KeyData demo_xpub) (KeyData demo_xprv)
        = Inl (BTClibValueError WrongDepths)"
    using crack_prv_key_checks[OF kp kq] f by blast
  have e: "crack_prv_key demo (KeyData demo_xpub)
          (KeyData (demo_child_h\<lparr>parent_fingerprint := [0, 0, 0, 0]\<rparr>))
        = Inl (BTClibValueError WrongParentFingerprint)"
    using crack_prv_key_checks[OF kp kf] f g by blast
  show ?thesis
    using a b c d e f g kp kc ok demo_xprv_valid demo_xpub_valid by blast
qed

text \<open>
  C4 as stated fails in two ways. \<open>demo_stray_h\<close> is a valid hardened private key whose
  depth is not that of a child of \<open>demo_xpub\<close>: the depth check comes first and raises
  "wrong depths", not "hardened child derivation". \<open>demo_unchecked_pub\<close> is an object
  built without validation whose key byte 0 is 0: the message of the first check is
  built from \<open>p.b58encode()\<close>, whose validation raises "invalid public key prefix", not
  "extended parent key is not a public key".
\<close>

theorem crack_of_stray_hardened_key:
  "assert_valid demo demo_xpub = Inr () \<and> assert_valid demo demo_stray_h = Inr ()
   \<and> index demo_stray_h \<ge> 0x80000000
   \<and> crack_prv_key demo (KeyData demo_xpub) (KeyData demo_stray_h)
        = Inl (BTClibValueError WrongDepths)
   \<and> crack_prv_key demo (KeyData demo_xpub) (KeyData demo_stray_h)
        \<noteq> Inl (BTClibValueError HardenedChild)
   \<and> key demo_unchecked_pub ! 0 = 0
   \<and> crack_prv_key demo (KeyData demo_unchecked_pub) (KeyData demo_child_h)
        = Inl (BTClibValueError InvalidPublicKeyPrefix)
   \<and> crack_prv_key demo (KeyData demo_unchecked_pub) (KeyData demo_child_h)
        \<noteq> Inl (BTClibValueError NotAPublicKey)"
proof -
  have a: "assert_valid demo demo_xpub = Inr () \<and> assert_valid demo demo_stray_h = Inr ()
     \<and> index demo_stray_h \<ge> 0x80000000 \<and> key demo_unchecked_pub ! 0 = 0"
    by code_simp
  have b: "crack_prv_key demo (KeyData demo_xpub) (KeyData demo_stray_h)
        = Inl (BTClibValueError WrongDepths)" by code_simp
  have c: "crack_prv_key demo (KeyData demo_unchecked_pub) (KeyData demo_child_h)
        = Inl (BTClibValueError InvalidPublicKeyPrefix)" by code_simp
  from a b c show ?thesis by simp
qed

subsection \<open>C5: path composition\<close>

text \<open>
  C5. Let \<open>k\<close> be a valid private extended key and let a path be the concatenation
  of two paths, with \<open>depth k\<close> plus the number of indexes at most 255 (for two indexes,
  \<open>depth k \<le> 253\<close>). Then \<open>derive\<close> along the whole path is the loop of \<open>__ckd\<close> over
  the indexes, in path order, from the object built from \<open>k\<close>, followed by the encoding
  as text. When the loop returns an object with a non-zero scalar, \<open>derive\<close> along the
  first part returns a text, \<open>derive\<close> of that text along the second part returns a
  text, \<open>derive\<close> along the whole path returns the same text, and that text decodes to
  the key fields of the object. In particular \<open>derive(derive(k, "m/0h"), "m/1")\<close> is
  \<open>derive(k, "m/0h/1")\<close>. In every case (any depth, any scalar) either both raise
  or both return the same text. The collaborators are assumed to behave as a curve
  group, digests and Base58Check do.
\<close>

theorem path_composition:
  fixes E :: "('pt, 'path) collaborators"
  assumes ok: "collaborators_ok E" and valid: "assert_valid E k = Inr ()"
    and prv: "version k \<in> set (XPRV_VERSIONS_ALL E)"
    and p12: "indexes_from_bip32_path E p12 = Inr (xs @ ys)"
    and p1: "indexes_from_bip32_path E p1 = Inr xs"
    and p2: "indexes_from_bip32_path E p2 = Inr ys"
  shows
   "(depth k + int (length (xs @ ys)) \<le> 255 \<longrightarrow>
       derive E (KeyData k) p12 None
         = bnd (ckd_loop E (extended k (int_from_bytes (tl (key k))) (INF_point E)) (xs @ ys))
             (key_text E)) \<and>
    (depth k + int (length (xs @ ys)) \<le> 255
       \<and> ckd_loop E (extended k (int_from_bytes (tl (key k))) (INF_point E)) (xs @ ys) = Inr x
       \<and> q x \<noteq> 0 \<longrightarrow>
       (\<exists>t1 t. derive E (KeyData k) p1 None = Inr t1
          \<and> derive E (KeyString (Str t1)) p2 None = Inr t
          \<and> derive E (KeyData k) p12 None = Inr t
          \<and> b58decode E (Str t) True = Inr (plain x)
          \<and> depth x = depth k + int (length (xs @ ys)))) \<and>
    ((isl (derive E (KeyData k) p12 None)
        \<and> isl (bnd (derive E (KeyData k) p1 None)
                 (\<lambda>t. derive E (KeyString (Str t)) p2 None)))
     \<or> (\<exists>t. derive E (KeyData k) p12 None = Inr t
            \<and> bnd (derive E (KeyData k) p1 None)
                 (\<lambda>t. derive E (KeyString (Str t)) p2 None) = Inr t))"
proof -
  let ?x0 = "extended k (int_from_bytes (tl (key k))) (INF_point E)"
  let ?one = "derive E (KeyData k) p12 None"
  let ?two = "bnd (derive E (KeyData k) p1 None) (\<lambda>t. derive E (KeyString (Str t)) p2 None)"
  have kd: "key_data E (KeyData k) = Inr k" by simp
  have inv0: "prv_inv E ?x0" using prv_start(1)[OF ok valid prv] .
  have d0: "depth ?x0 = depth k" by simp
  have one: "?one = (if depth k + int (length (xs @ ys)) > 255
                      then Inl (BTClibValueError DepthOverflow)
                      else bnd (ckd_loop E ?x0 (xs @ ys)) (key_text E))"
    by (simp add: derive_eq derive_data_prv[OF ok valid prv kd p12])
  have first: "derive E (KeyData k) p1 None =
                 (if depth k + int (length xs) > 255
                  then Inl (BTClibValueError DepthOverflow)
                  else bnd (ckd_loop E ?x0 xs) (key_text E))"
    by (simp add: derive_eq derive_data_prv[OF ok valid prv kd p1])
  have kleene: "(isl ?one \<and> isl ?two) \<or> (\<exists>t. ?one = Inr t \<and> ?two = Inr t)"
  proof -
    show ?thesis
    proof (cases "ckd_loop E ?x0 xs")
      case (Inl e)
      then have "isl ?one" by (simp add: one ckd_loop_append)
      moreover have "isl ?two" using Inl by (simp add: first)
      ultimately show ?thesis by blast
    next
      case (Inr x1)
      have inv1: "prv_inv E x1" using ckd_loop_prv_inv[OF ok inv0 Inr] .
      have d1: "depth x1 = depth k + int (length xs)"
        using ckd_loop_depth_index[OF Inr] by simp
      show ?thesis
      proof (cases "depth k + int (length xs) > 255")
        case True
        then have "isl ?one" "isl ?two" by (simp_all add: one first)
        then show ?thesis by blast
      next
        case shallow: False
        show ?thesis
        proof (cases "q x1 = 0")
          case True
          then have nv: "isl (key_text E x1)"
            using assert_valid_prv_inv[OF ok inv1]
            by (cases "assert_valid E x1") (auto simp: key_text_invalid)
          then have "isl ?two" using shallow Inr
            by (cases "key_text E x1") (simp_all add: first)
          moreover have "isl ?one"
          proof (cases "ys = []")
            case True
            then show ?thesis using Inr nv
              by (cases "key_text E x1") (simp_all add: one)
          next
            case False
            from ckd_loop_zero_scalar[OF ok inv1 \<open>q x1 = 0\<close> False]
            show ?thesis using Inr
              by (cases "ckd_loop E x1 ys") (simp_all add: one ckd_loop_append)
          qed
          ultimately show ?thesis by blast
        next
          case False
          then have v1: "assert_valid E x1 = Inr ()"
            using assert_valid_prv_inv[OF ok inv1] d1 shallow by simp
          have b: "base58_ok E" using ok by (simp add: collaborators_ok_def)
          from key_text_round_trip[OF b v1] obtain t where t: "key_text E x1 = Inr t" by blast
          have second: "derive E (KeyString (Str t)) p2 None =
                       (if depth k + int (length (xs @ ys)) > 255
                        then Inl (BTClibValueError DepthOverflow)
                        else bnd (ckd_loop E x1 ys) (key_text E))"
            using d1 by (simp add: derive_eq derive_data_resume[OF ok inv1 v1 t p2] add.assoc)
          have two: "?two = (if depth k + int (length (xs @ ys)) > 255
                        then Inl (BTClibValueError DepthOverflow)
                        else bnd (ckd_loop E x1 ys) (key_text E))"
            using shallow Inr t second by (simp add: first)
          have "?one = ?two" using Inr by (simp add: one two ckd_loop_append)
          then show ?thesis by (rule same_result)
        qed
      qed
    qed
  qed

  have b: "base58_ok E" using ok by (simp add: collaborators_ok_def)
  have whole: "?one = bnd (ckd_loop E ?x0 (xs @ ys)) (key_text E)"
    if "depth k + int (length (xs @ ys)) \<le> 255"
    using that by (simp add: one)
  have returns: "\<exists>t1 t. derive E (KeyData k) p1 None = Inr t1
          \<and> derive E (KeyString (Str t1)) p2 None = Inr t
          \<and> ?one = Inr t \<and> b58decode E (Str t) True = Inr (plain x)
          \<and> depth x = depth k + int (length (xs @ ys))"
    if le: "depth k + int (length (xs @ ys)) \<le> 255"
      and run: "ckd_loop E ?x0 (xs @ ys) = Inr x" and nz: "q x \<noteq> 0"
  proof -
    from run obtain x1 where r1: "ckd_loop E ?x0 xs = Inr x1" and r2: "ckd_loop E x1 ys = Inr x"
      by (auto simp: ckd_loop_append bnd_eq_Inr)
    have inv1: "prv_inv E x1" using ckd_loop_prv_inv[OF ok inv0 r1] .
    have invx: "prv_inv E x" using ckd_loop_prv_inv[OF ok inv1 r2] .
    have d1: "depth x1 = depth k + int (length xs)"
      using ckd_loop_depth_index[OF r1] by simp
    have dx: "depth x = depth k + int (length (xs @ ys))"
      using ckd_loop_depth_index[OF run] by simp
    have nz1: "q x1 \<noteq> 0"
    proof
      assume z: "q x1 = 0"
      show False
      proof (cases "ys = []")
        case True
        with r2 have "x = x1" by simp
        with z nz show False by simp
      next
        case False
        from ckd_loop_zero_scalar[OF ok inv1 z False] r2 show False by simp
      qed
    qed
    have le1: "depth k + int (length xs) \<le> 255" using le by simp
    have v1: "assert_valid E x1 = Inr ()"
      using assert_valid_prv_inv[OF ok inv1] d1 le1 nz1 by simp
    have vx: "assert_valid E x = Inr ()"
      using assert_valid_prv_inv[OF ok invx] dx le nz by simp
    from key_text_round_trip[OF b v1] obtain t1 where t1: "key_text E x1 = Inr t1" by blast
    from key_text_round_trip[OF b vx] obtain t where
      t: "key_text E x = Inr t" and dec: "b58decode E (Str t) True = Inr (plain x)" by blast
    have f: "derive E (KeyData k) p1 None = Inr t1"
      using le1 r1 t1 by (simp add: first)
    have s: "derive E (KeyString (Str t1)) p2 None = Inr t"
      using d1 le r2 t
      by (simp add: derive_eq derive_data_resume[OF ok inv1 v1 t1 p2] add.assoc)
    have w: "?one = Inr t" using le run t by (simp add: one)
    from f s w dec dx show ?thesis by blast
  qed
  from whole returns kleene show ?thesis by blast
qed

theorem path_composition_witness:
  "collaborators_ok demo \<and> assert_valid demo demo_xprv = Inr ()
   \<and> version demo_xprv \<in> set (XPRV_VERSIONS_ALL demo)
   \<and> indexes_from_bip32_path demo [0x80000000, 1] = Inr ([0x80000000] @ [1])
   \<and> indexes_from_bip32_path demo [0x80000000] = Inr [0x80000000]
   \<and> indexes_from_bip32_path demo [1] = Inr [1]
   \<and> depth demo_xprv + int (length ([0x80000000] @ [1 :: int])) \<le> 255
   \<and> ckd_loop demo (extended demo_xprv (int_from_bytes (tl (key demo_xprv))) (INF_point demo))
         ([0x80000000] @ [1]) = Inr (extended demo_grandchild 5 0)
   \<and> q (extended demo_grandchild 5 (0 :: int)) \<noteq> 0
   \<and> (\<exists>t1 t. derive demo (KeyData demo_xprv) [0x80000000] None = Inr t1
          \<and> derive demo (KeyString (Str t1)) [1] None = Inr t
          \<and> derive demo (KeyData demo_xprv) [0x80000000, 1] None = Inr t
          \<and> b58decode demo (Str t) True = Inr demo_grandchild)"
proof -
  have v: "version demo_xprv \<in> set (XPRV_VERSIONS_ALL demo)" by code_simp
  have p12: "indexes_from_bip32_path demo [0x80000000, 1] = Inr ([0x80000000] @ [1])"
    and p1: "indexes_from_bip32_path demo [0x80000000] = Inr [0x80000000]"
    and p2: "indexes_from_bip32_path demo [1] = Inr [1]"
    by (simp_all add: demo_def)
  have le: "depth demo_xprv + int (length ([0x80000000] @ [1 :: int])) \<le> 255"
    by (simp add: demo_xprv_def)
  have run: "ckd_loop demo
         (extended demo_xprv (int_from_bytes (tl (key demo_xprv))) (INF_point demo))
         ([0x80000000] @ [1]) = Inr (extended demo_grandchild 5 0)"
    by code_simp
  have nz: "q (extended demo_grandchild 5 (0 :: int)) \<noteq> 0" by simp
  from path_composition[OF demo_collaborators_ok demo_xprv_valid v p12 p1 p2,
      of "extended demo_grandchild 5 0"] le run nz
  have "\<exists>t1 t. derive demo (KeyData demo_xprv) [0x80000000] None = Inr t1
          \<and> derive demo (KeyString (Str t1)) [1] None = Inr t
          \<and> derive demo (KeyData demo_xprv) [0x80000000, 1] None = Inr t
          \<and> b58decode demo (Str t) True = Inr (plain (extended demo_grandchild 5 (0 :: int)))"
    by blast
  then have r: "\<exists>t1 t. derive demo (KeyData demo_xprv) [0x80000000] None = Inr t1
          \<and> derive demo (KeyString (Str t1)) [1] None = Inr t
          \<and> derive demo (KeyData demo_xprv) [0x80000000, 1] None = Inr t
          \<and> b58decode demo (Str t) True = Inr demo_grandchild"
    by simp
  show ?thesis
    using r demo_collaborators_ok demo_xprv_valid v p12 p1 p2 le run nz by blast
qed

subsection \<open>C1: neutering and derivation\<close>

text \<open>
  C1, as amended. Let \<open>k\<close> be a valid private extended key and \<open>i\<close> a non-hardened
  index. When the depth of \<open>k\<close> is below 255, the step \<open>__ckd\<close> from \<open>k\<close> returns an
  object; when its scalar is not zero, \<open>derive(k, "m/" + i)\<close> returns the text of that
  object, \<open>xpub_from_xprv\<close> of that text and \<open>derive(xpub_from_xprv(k), "m/" + i)\<close>
  both return, and they return the same text, which decodes to the object's key fields
  with the public version and the encoded public point of its scalar. In every case
  (also depth 255, or a zero scalar) either both sides raise or both return the same
  text. For a valid public extended key
  of depth below 255 whose key \<open>point_from_octets\<close> decodes, \<open>derive\<close> with a single
  hardened index raises "invalid hardened derivation from public key"; so does
  \<open>derive(xpub_from_xprv(k), "m/0h")\<close> when the depth of \<open>k\<close> is below 255. The
  collaborators are assumed to behave as a curve group, digests and Base58Check do.
\<close>

theorem neutering_commutes_with_normal_derivation:
  fixes k :: BIP32KeyData
  assumes ok: "collaborators_ok E" and valid: "assert_valid E k = Inr ()"
    and prv: "version k \<in> set (XPRV_VERSIONS_ALL E)"
    and p: "indexes_from_bip32_path E der_path = Inr [i]"
    and i: "0 \<le> i" "i < 0x80000000"
  shows
   "(depth k < 255 \<longrightarrow>
       (\<exists>x. ckd E (extended k (int_from_bytes (tl (key k))) (INF_point E)) i = Inr x)) \<and>
    (depth k < 255
       \<and> ckd E (extended k (int_from_bytes (tl (key k))) (INF_point E)) i = Inr x
       \<and> q x \<noteq> 0 \<longrightarrow>
       (\<exists>child parent t j kb.
          derive E (KeyData k) der_path None = Inr child
          \<and> b58decode E (Str child) True = Inr (plain x)
          \<and> xpub_from_xprv E (KeyData k) = Inr parent
          \<and> xpub_from_xprv E (KeyString (Str child)) = Inr t
          \<and> derive E (KeyString (Str parent)) der_path None = Inr t
          \<and> list_index (XPRV_VERSIONS_ALL E) (version k) = Inr j
          \<and> bytes_from_point E (mult E (q x)) = Inr kb
          \<and> b58decode E (Str t) True
              = Inr ((plain x)\<lparr>version := XPUB_VERSIONS_ALL E ! j, key := kb\<rparr>))) \<and>
    ((isl (bnd (derive E (KeyData k) der_path None) (\<lambda>t. xpub_from_xprv E (KeyString (Str t))))
       \<and> isl (bnd (xpub_from_xprv E (KeyData k))
                (\<lambda>t. derive E (KeyString (Str t)) der_path None)))
     \<or> (\<exists>t. bnd (derive E (KeyData k) der_path None)
               (\<lambda>t. xpub_from_xprv E (KeyString (Str t))) = Inr t
            \<and> bnd (xpub_from_xprv E (KeyData k))
                 (\<lambda>t. derive E (KeyString (Str t)) der_path None) = Inr t)) \<and>
    (key_data E xpub = Inr pk \<and> assert_valid E pk = Inr ()
       \<and> version pk \<notin> set (XPRV_VERSIONS_ALL E) \<and> depth pk < 255
       \<and> indexes_from_bip32_path E hp = Inr [h] \<and> h \<ge> 0x80000000
       \<and> point_from_octets E (key pk) = Inr P \<longrightarrow>
       derive E xpub hp None = Inl (BTClibValueError HardenedFromPublicKey)) \<and>
    (depth k < 255 \<and> indexes_from_bip32_path E hp = Inr [h] \<and> h \<ge> 0x80000000 \<longrightarrow>
       bnd (xpub_from_xprv E (KeyData k)) (\<lambda>t. derive E (KeyString (Str t)) hp None)
         = Inl (BTClibValueError HardenedFromPublicKey))"
proof -
  let ?L = "bnd (derive E (KeyData k) der_path None) (\<lambda>t. xpub_from_xprv E (KeyString (Str t)))"
  let ?R = "bnd (xpub_from_xprv E (KeyData k)) (\<lambda>t. derive E (KeyString (Str t)) der_path None)"
  let ?s = "int_from_bytes (tl (key k))"
  let ?x0 = "extended k ?s (INF_point E)"
  have b: "base58_ok E" using ok by (simp add: collaborators_ok_def)
  have kd: "key_data E (KeyData k) = Inr k" by simp
  have i32: "i < 2 ^ 32" using i(2) by simp
  from valid prv have s: "0 < ?s" "?s < ec_n E"
    by (simp_all add: assert_valid_iff key_invariants_def)
  have n0: "0 < ec_n E" using n_bounds[OF ok] by simp
  \<comment> \<open>the neutered parent\<close>
  from neuter_prv[OF ok valid prv kd] obtain j Qb where
    j: "list_index (XPRV_VERSIONS_ALL E) (version k) = Inr j"
    and Qb: "bytes_from_point E (mult E ?s) = Inr Qb"
    and px: "xpub_from_xprv_data E (KeyData k)
          = Inr (k\<lparr>version := XPUB_VERSIONS_ALL E ! j, key := Qb\<rparr>)"
    and pv: "assert_valid E (k\<lparr>version := XPUB_VERSIONS_ALL E ! j, key := Qb\<rparr>) = Inr ()"
    and ql: "length Qb = 33" and q0: "Qb ! 0 \<in> {2, 3}"
    and pt: "point_from_octets E Qb = Inr (mult E ?s)"
    by blast
  let ?p = "k\<lparr>version := XPUB_VERSIONS_ALL E ! j, key := Qb\<rparr>"
  from key_text_round_trip[OF b pv] obtain parent where
    ptx: "key_text E ?p = Inr parent" and pdec: "b58decode E (Str parent) True = Inr ?p"
    by (auto simp: plain_def)
  have xp: "xpub_from_xprv E (KeyData k) = Inr parent"
    using px ptx by (simp add: xpub_from_xprv_eq)
  have kdp: "key_data E (KeyString (Str parent)) = Inr ?p" using pdec by simp
  have R: "?R = derive E (KeyString (Str parent)) der_path None" using xp by simp
  let ?c = "prv_child E ?x0 i Qb"
  have deep: "isl ?L \<and> isl ?R" if nd: "\<not> depth k < 255"
  proof -
    from nd have "derive E (KeyData k) der_path None = Inl (BTClibValueError DepthOverflow)"
      by (simp add: derive_eq derive_data_prv[OF ok valid prv kd p])
    then have "isl ?L" by simp
    moreover have "derive E (KeyString (Str parent)) der_path None
                    = Inl (BTClibValueError DepthOverflow)"
      using nd by (simp add: derive_eq derive_data_None_eq[OF kdp p])
    then have "isl ?R" by (simp add: R)
    ultimately show ?thesis by blast
  qed
  have shallow: "ckd E ?x0 i = Inr ?c
      \<and> (q ?c \<noteq> 0 \<longrightarrow> (\<exists>child parent t j kb.
          derive E (KeyData k) der_path None = Inr child
          \<and> b58decode E (Str child) True = Inr (plain ?c)
          \<and> xpub_from_xprv E (KeyData k) = Inr parent
          \<and> xpub_from_xprv E (KeyString (Str child)) = Inr t
          \<and> derive E (KeyString (Str parent)) der_path None = Inr t
          \<and> list_index (XPRV_VERSIONS_ALL E) (version k) = Inr j
          \<and> bytes_from_point E (mult E (q ?c)) = Inr kb
          \<and> b58decode E (Str t) True
              = Inr ((plain ?c)\<lparr>version := XPUB_VERSIONS_ALL E ! j, key := kb\<rparr>)))
      \<and> (q ?c = 0 \<longrightarrow> isl ?L \<and> isl ?R)" if d: "depth k < 255"
  proof -
    from derive_data_prv_one[OF ok valid prv kd p d i(1) i32] Qb
    have dd: "derive_data E (KeyData k) der_path None = Inr (prv_child E ?x0 i Qb)" by auto
    let ?c = "prv_child E ?x0 i Qb"
    let ?h = "hmac_sha512 E (chain_code k) (Qb @ be_bytes 4 i)"
    let ?off = "int_from_bytes (take 32 ?h)"
    let ?q' = "(?s + ?off) mod ec_n E"
    have inv0: "prv_inv E ?x0" using prv_start(1)[OF ok valid prv] .
    have invc: "prv_inv E ?c" using prv_inv_child[OF ok inv0 i(1) i32] .
    have qc: "q ?c = ?q'" "depth ?c = depth k + 1"
      using i(2) by (simp_all add: prv_child_def Let_def)
    have L: "?L = bnd (key_text E ?c) (\<lambda>t. xpub_from_xprv E (KeyString (Str t)))"
      using dd by (simp add: derive_eq)
    \<comment> \<open>the public step\<close>
    have off0: "0 \<le> ?off" using int_from_bytes_bounds[of "take 32 ?h"] by simp
    have "curve_ok E" using ok by (simp add: collaborators_ok_def)
    then have add: "ec_add E (mult E ?s) (mult E ?off) = mult E ?q'"
      using s(1) off0 unfolding curve_ok_def by (meson less_imp_le)
    have p0: "item0 (key ?p) = Inr (Qb ! 0)" using item0_Inr[of Qb 32] ql by simp
    have nz: "Qb ! 0 \<noteq> 0" using q0 by auto
    have kx: "item0 (key (extended ?p 0 (mult E ?s))) = Inr (Qb ! 0)" using p0 by simp
    have ib: "int_to_bytes i 4 = Inr (be_bytes 4 i)" using i by (simp add: int_to_bytes_def)
    let ?y = "\<lambda>kb. (extended ?p 0 (mult E ?s))\<lparr>depth := depth k + 1, index := i,
                  parent_fingerprint := take 4 (hash160 E Qb), chain_code := drop 32 ?h,
                  Q := mult E ?q', key := kb, q := 0\<rparr>"
    have step: "ckd E (extended ?p 0 (mult E ?s)) i
                 = bnd (bytes_from_point E (mult E ?q')) (\<lambda>kb. Inr (?y kb))"
      using ckd_pub[OF kx nz, of E i] i(2) ib add by simp
    have ddR: "derive_data E (KeyString (Str parent)) der_path None
                 = bnd (bytes_from_point E (mult E ?q')) (\<lambda>kb. Inr (?y kb))"
      using d p0 nz pt pv step by (simp add: derive_data_None_eq[OF kdp p] bnd_Inr_right)
    have nz0: "q ?x0 \<noteq> 0" using s(1) by simp
    from ckd_prv_step[OF ok inv0 nz0 i(1) i32] Qb
    have st: "ckd E ?x0 i = Inr ?c" by auto
    have zero: "isl ?L \<and> isl ?R" if True: "q ?c = 0"
    proof -
      from True have qz: "?q' = 0" using qc by simp
      from qz have "assert_valid E ?c \<noteq> Inr ()"
        using assert_valid_prv_inv[OF ok invc] qc by simp
      then have "isl (key_text E ?c)"
        by (cases "assert_valid E ?c") (auto simp: key_text_invalid)
      then have "isl ?L" unfolding L by (rule isl_bnd_left)
      moreover have "isl (bytes_from_point E (mult E ?q'))"
        using qz point_bytes_zero[OF ok] by simp
      then have "isl (derive_data E (KeyString (Str parent)) der_path None)"
        unfolding ddR by (rule isl_bnd_left)
      then have "isl (derive E (KeyString (Str parent)) der_path None)"
        unfolding derive_eq by (rule isl_bnd_left)
      then have "isl ?R" by (simp add: R)
      ultimately show ?thesis by blast
    qed
    have ret: "(\<exists>child parent t j kb.
          derive E (KeyData k) der_path None = Inr child
          \<and> b58decode E (Str child) True = Inr (plain ?c)
          \<and> xpub_from_xprv E (KeyData k) = Inr parent
          \<and> xpub_from_xprv E (KeyString (Str child)) = Inr t
          \<and> derive E (KeyString (Str parent)) der_path None = Inr t
          \<and> list_index (XPRV_VERSIONS_ALL E) (version k) = Inr j
          \<and> bytes_from_point E (mult E (q ?c)) = Inr kb
          \<and> b58decode E (Str t) True
              = Inr ((plain ?c)\<lparr>version := XPUB_VERSIONS_ALL E ! j, key := kb\<rparr>))" if False: "q ?c \<noteq> 0"
    proof -
      from False have cv: "assert_valid E ?c = Inr ()"
        using assert_valid_prv_inv[OF ok invc] qc d by simp
      from key_text_round_trip[OF b cv] obtain child where
        ct: "key_text E ?c = Inr child" and cdec: "b58decode E (Str child) True = Inr (plain ?c)"
        by blast
      have kdc: "key_data E (KeyString (Str child)) = Inr (plain ?c)" using cdec by simp
      have cpv: "assert_valid E (plain ?c) = Inr ()" using cv by (simp add: assert_valid_plain)
      have cf: "version (plain ?c) = version k" "tl (key (plain ?c)) = be_bytes 32 ?q'"
        using i(2) by (simp_all add: plain_def prv_child_def Let_def)
      have cprv: "version (plain ?c) \<in> set (XPRV_VERSIONS_ALL E)" using prv cf(1) by simp
      have q'r: "0 \<le> ?q'" "?q' < ec_n E" using n0 by simp_all
      have cs: "int_from_bytes (tl (key (plain ?c))) = ?q'"
        using scalar_bytes(2)[OF ok q'r] cf(2) by simp
      from neuter_prv[OF ok cpv cprv kdc] obtain j' Qb' where
        j': "list_index (XPRV_VERSIONS_ALL E) (version (plain ?c)) = Inr j'"
        and Qb': "bytes_from_point E (mult E (int_from_bytes (tl (key (plain ?c))))) = Inr Qb'"
        and cx: "xpub_from_xprv_data E (KeyString (Str child))
               = Inr ((plain ?c)\<lparr>version := XPUB_VERSIONS_ALL E ! j', key := Qb'\<rparr>)"
        and xv: "assert_valid E ((plain ?c)\<lparr>version := XPUB_VERSIONS_ALL E ! j', key := Qb'\<rparr>)
               = Inr ()"
        by blast
      have jj: "j' = j" using j j' cf(1) by simp
      let ?X = "(plain ?c)\<lparr>version := XPUB_VERSIONS_ALL E ! j, key := Qb'\<rparr>"
      from key_text_round_trip[OF b xv] jj obtain t where t: "key_text E ?X = Inr t" by auto
      have xc: "xpub_from_xprv E (KeyString (Str child)) = Inr t"
        using cx jj t by (simp add: xpub_from_xprv_eq)
      have Lt: "?L = Inr t" using ct xc by (simp add: L)
      have Qb'': "bytes_from_point E (mult E ?q') = Inr Qb'" using Qb' cs by simp
      have py: "plain (?y Qb') = ?X"
        using i(2) by (simp add: plain_def prv_child_def extended_def Let_def)
      have "derive E (KeyString (Str parent)) der_path None = key_text E (?y Qb')"
        using Qb'' by (simp add: derive_eq ddR)
      then have "?R = key_text E (?y Qb')" by (simp add: R)
      also have "\<dots> = key_text E (plain (?y Qb'))" by (simp only: key_text_plain)
      also have "\<dots> = Inr t" using t by (simp only: py)
      finally have Rt: "?R = Inr t" .
      have dl: "derive E (KeyData k) der_path None = Inr child"
        using dd ct by (simp add: derive_eq)
      have dr: "derive E (KeyString (Str parent)) der_path None = Inr t"
        using Rt by (simp add: R)
      have kb: "bytes_from_point E (mult E (q ?c)) = Inr Qb'" using Qb'' qc by simp
      from key_text_round_trip[OF b xv] jj t
      have td: "b58decode E (Str t) True = Inr ?X" by (auto simp: plain_def)
      from dl cdec xp xc dr j kb td show ?thesis by blast
    qed
    from st zero ret show ?thesis by blast
  qed
  have first: "(isl ?L \<and> isl ?R) \<or> (\<exists>t. ?L = Inr t \<and> ?R = Inr t)"
  proof (cases "depth k < 255")
    case False
    then show ?thesis using deep by blast
  next
    case True
    show ?thesis
    proof (cases "q ?c = 0")
      case z: True
      then show ?thesis using shallow[OF True] by blast
    next
      case False
      with shallow[OF True] obtain child parent t where
        "derive E (KeyData k) der_path None = Inr child"
        "xpub_from_xprv E (KeyData k) = Inr parent"
        "xpub_from_xprv E (KeyString (Str child)) = Inr t"
        "derive E (KeyString (Str parent)) der_path None = Inr t"
        by blast
      then have "?L = Inr t \<and> ?R = Inr t" by simp
      then show ?thesis by blast
    qed
  qed
  have step: "\<exists>x. ckd E ?x0 i = Inr x" if "depth k < 255"
    using shallow[OF that] by blast
  have returns: "(\<exists>child parent t j kb.
          derive E (KeyData k) der_path None = Inr child
          \<and> b58decode E (Str child) True = Inr (plain x)
          \<and> xpub_from_xprv E (KeyData k) = Inr parent
          \<and> xpub_from_xprv E (KeyString (Str child)) = Inr t
          \<and> derive E (KeyString (Str parent)) der_path None = Inr t
          \<and> list_index (XPRV_VERSIONS_ALL E) (version k) = Inr j
          \<and> bytes_from_point E (mult E (q x)) = Inr kb
          \<and> b58decode E (Str t) True
              = Inr ((plain x)\<lparr>version := XPUB_VERSIONS_ALL E ! j, key := kb\<rparr>))"
    if "depth k < 255" "ckd E ?x0 i = Inr x" "q x \<noteq> 0"
  proof -
    from shallow[OF that(1)] that(2) have "x = ?c" by simp
    with shallow[OF that(1)] that(3) show ?thesis by blast
  qed
  have second: "derive E xpub hp None = Inl (BTClibValueError HardenedFromPublicKey)"
    if "key_data E xpub = Inr pk" "assert_valid E pk = Inr ()"
      "version pk \<notin> set (XPRV_VERSIONS_ALL E)" "depth pk < 255"
      "indexes_from_bip32_path E hp = Inr [h]" "h \<ge> 0x80000000"
      "point_from_octets E (key pk) = Inr P"
  proof -
    from that(2,3) have "key pk ! 0 \<in> {2, 3}"
      by (simp add: assert_valid_iff key_invariants_def)
    then have "key pk ! 0 \<noteq> 0" by auto
    from derive_public_hardened[OF that(1,2) this that(4,5,6,7)] show ?thesis .
  qed
  have third: "bnd (xpub_from_xprv E (KeyData k)) (\<lambda>t. derive E (KeyString (Str t)) hp None)
         = Inl (BTClibValueError HardenedFromPublicKey)"
    if "depth k < 255" "indexes_from_bip32_path E hp = Inr [h]" "h \<ge> 0x80000000"
    using neuter_then_derive_hardened[OF ok valid prv that] .
  from step returns first second third show ?thesis by blast
qed

theorem neutering_commutes_with_normal_derivation_witness:
  "collaborators_ok demo \<and> assert_valid demo demo_xprv = Inr ()
   \<and> version demo_xprv \<in> set (XPRV_VERSIONS_ALL demo)
   \<and> indexes_from_bip32_path demo [3] = Inr [3] \<and> (0 :: int) \<le> 3 \<and> (3 :: int) < 0x80000000
   \<and> depth demo_xprv < 255
   \<and> ckd demo (extended demo_xprv (int_from_bytes (tl (key demo_xprv))) (INF_point demo)) 3
        = Inr (extended demo_child3 10 0)
   \<and> q (extended demo_child3 10 (0 :: int)) \<noteq> 0
   \<and> (\<exists>child parent t.
          derive demo (KeyData demo_xprv) [3] None = Inr child
          \<and> b58decode demo (Str child) True = Inr demo_child3
          \<and> xpub_from_xprv demo (KeyData demo_xprv) = Inr parent
          \<and> xpub_from_xprv demo (KeyString (Str child)) = Inr t
          \<and> derive demo (KeyString (Str parent)) [3] None = Inr t
          \<and> b58decode demo (Str t) True = Inr demo_pub_child3)
   \<and> key_data demo (KeyData demo_xpub) = Inr demo_xpub \<and> assert_valid demo demo_xpub = Inr ()
   \<and> version demo_xpub \<notin> set (XPRV_VERSIONS_ALL demo) \<and> depth demo_xpub < 255
   \<and> indexes_from_bip32_path demo [0x80000000] = Inr [0x80000000]
   \<and> (0x80000000 :: int) \<ge> 0x80000000
   \<and> point_from_octets demo (key demo_xpub) = Inr 5
   \<and> derive demo (KeyData demo_xpub) [0x80000000] None
        = Inl (BTClibValueError HardenedFromPublicKey)
   \<and> bnd (xpub_from_xprv demo (KeyData demo_xprv))
         (\<lambda>t. derive demo (KeyString (Str t)) [0x80000000] None)
        = Inl (BTClibValueError HardenedFromPublicKey)"
proof -
  have v: "version demo_xprv \<in> set (XPRV_VERSIONS_ALL demo)" by code_simp
  have p: "indexes_from_bip32_path demo [3] = Inr [3]"
    and hp: "indexes_from_bip32_path demo [0x80000000] = Inr [0x80000000]"
    by (simp_all add: demo_def)
  have i: "(0 :: int) \<le> 3" "(3 :: int) < 0x80000000" by simp_all
  have kd: "key_data demo (KeyData demo_xpub) = Inr demo_xpub" by simp
  have f: "version demo_xpub \<notin> set (XPRV_VERSIONS_ALL demo) \<and> depth demo_xpub < 255
     \<and> point_from_octets demo (key demo_xpub) = Inr 5 \<and> depth demo_xprv < 255"
    by code_simp
  have st: "ckd demo (extended demo_xprv (int_from_bytes (tl (key demo_xprv))) (INF_point demo)) 3
        = Inr (extended demo_child3 10 0)"
    by code_simp
  have nz: "q (extended demo_child3 10 (0 :: int)) \<noteq> 0" by simp
  have j0: "list_index (XPRV_VERSIONS_ALL demo) (version demo_xprv) = Inr 0" by code_simp
  have kb0: "bytes_from_point demo (mult demo 10) = Inr (2 # be_bytes 32 10)" by code_simp
  have rec: "demo_child3\<lparr>version := XPUB_VERSIONS_ALL demo ! 0, key := 2 # be_bytes 32 10\<rparr>
              = demo_pub_child3"
    by code_simp
  note inst = neutering_commutes_with_normal_derivation[OF demo_collaborators_ok
      demo_xprv_valid v p i, where x = "extended demo_child3 10 0"
      and xpub = "KeyData demo_xpub" and pk = demo_xpub
      and hp = "[0x80000000]" and h = "0x80000000" and P = 5]
  from inst f st nz obtain child parent t j kb where
    r: "derive demo (KeyData demo_xprv) [3] None = Inr child"
      "b58decode demo (Str child) True = Inr (plain (extended demo_child3 10 (0 :: int)))"
      "xpub_from_xprv demo (KeyData demo_xprv) = Inr parent"
      "xpub_from_xprv demo (KeyString (Str child)) = Inr t"
      "derive demo (KeyString (Str parent)) [3] None = Inr t"
      "list_index (XPRV_VERSIONS_ALL demo) (version demo_xprv) = Inr j"
      "bytes_from_point demo (mult demo (q (extended demo_child3 10 (0 :: int)))) = Inr kb"
      "b58decode demo (Str t) True
         = Inr ((plain (extended demo_child3 10 (0 :: int)))\<lparr>version :=
                  XPUB_VERSIONS_ALL demo ! j, key := kb\<rparr>)"
    by blast
  from r(6) j0 have "j = 0" by simp
  moreover from r(7) kb0 have "kb = 2 # be_bytes 32 10" by simp
  ultimately have td: "b58decode demo (Str t) True = Inr demo_pub_child3"
    using r(8) rec by simp
  have cd: "b58decode demo (Str child) True = Inr demo_child3" using r(2) by simp
  have a: "\<exists>child parent t.
          derive demo (KeyData demo_xprv) [3] None = Inr child
          \<and> b58decode demo (Str child) True = Inr demo_child3
          \<and> xpub_from_xprv demo (KeyData demo_xprv) = Inr parent
          \<and> xpub_from_xprv demo (KeyString (Str child)) = Inr t
          \<and> derive demo (KeyString (Str parent)) [3] None = Inr t
          \<and> b58decode demo (Str t) True = Inr demo_pub_child3"
    using r(1,3,4,5) cd td by blast
  from inst kd demo_xpub_valid f hp
  have b: "derive demo (KeyData demo_xpub) [0x80000000] None
        = Inl (BTClibValueError HardenedFromPublicKey)"
    by simp
  from inst f hp
  have c: "bnd (xpub_from_xprv demo (KeyData demo_xprv))
         (\<lambda>t. derive demo (KeyString (Str t)) [0x80000000] None)
        = Inl (BTClibValueError HardenedFromPublicKey)"
    by simp
  show ?thesis
    using a b c demo_collaborators_ok demo_xprv_valid demo_xpub_valid v p hp kd f st nz
    by simp
qed

text \<open>
  C1 as stated fails at depth 255. \<open>demo_deep_xpub\<close> is a valid public extended key,
  and \<open>derive\<close> with the hardened index 0x80000000 raises "final depth greater than
  255", the test that \<open>_derive\<close> makes before any derivation step, not "invalid
  hardened derivation from public key". \<open>demo_deep_xprv\<close> is a valid private extended
  key, and with the non-hardened index 3 neither \<open>derive(k, "m/3")\<close> nor
  \<open>derive(xpub_from_xprv(k), "m/3")\<close> returns a key to compare: both raise the same
  error. Below depth 255 the same happens when the scalar of the child is zero:
  from \<open>demo_xprv\<close>, of depth 0, the step with index 6 gives the scalar 0, and
  \<open>derive(k, "m/6")\<close> raises "private key not in 1..n-1" while
  \<open>derive(xpub_from_xprv(k), "m/6")\<close> raises in the encoding of the point at
  infinity.
\<close>

theorem hardened_derivation_from_deep_public_key:
  "assert_valid demo demo_deep_xpub = Inr ()
   \<and> version demo_deep_xpub \<in> set (XPUB_VERSIONS_ALL demo)
   \<and> indexes_from_bip32_path demo [0x80000000] = Inr [0x80000000]
   \<and> derive demo (KeyData demo_deep_xpub) [0x80000000] None
        = Inl (BTClibValueError DepthOverflow)
   \<and> derive demo (KeyData demo_deep_xpub) [0x80000000] None
        \<noteq> Inl (BTClibValueError HardenedFromPublicKey)
   \<and> assert_valid demo demo_deep_xprv = Inr ()
   \<and> version demo_deep_xprv \<in> set (XPRV_VERSIONS_ALL demo)
   \<and> derive demo (KeyData demo_deep_xprv) [3] None = Inl (BTClibValueError DepthOverflow)
   \<and> bnd (xpub_from_xprv demo (KeyData demo_deep_xprv))
         (\<lambda>t. derive demo (KeyString (Str t)) [3] None)
        = Inl (BTClibValueError DepthOverflow)
   \<and> assert_valid demo demo_xprv = Inr () \<and> depth demo_xprv = 0
   \<and> map_sum id q
         (ckd demo (extended demo_xprv (int_from_bytes (tl (key demo_xprv))) (INF_point demo)) 6)
        = Inr 0
   \<and> derive demo (KeyData demo_xprv) [6] None = Inl (BTClibValueError InvalidPrivateKeyRange)
   \<and> bnd (xpub_from_xprv demo (KeyData demo_xprv))
         (\<lambda>t. derive demo (KeyString (Str t)) [6] None)
        = Inl (BTClibValueError (Collaborator 0))"
proof -
  have a: "assert_valid demo demo_deep_xpub = Inr ()
     \<and> version demo_deep_xpub \<in> set (XPUB_VERSIONS_ALL demo)
     \<and> indexes_from_bip32_path demo [0x80000000] = Inr [0x80000000]
     \<and> assert_valid demo demo_deep_xprv = Inr ()
     \<and> version demo_deep_xprv \<in> set (XPRV_VERSIONS_ALL demo)"
    by code_simp
  have b: "derive demo (KeyData demo_deep_xpub) [0x80000000] None
        = Inl (BTClibValueError DepthOverflow)"
    by code_simp
  have c: "derive demo (KeyData demo_deep_xprv) [3] None = Inl (BTClibValueError DepthOverflow)"
    by code_simp
  have d: "bnd (xpub_from_xprv demo (KeyData demo_deep_xprv))
         (\<lambda>t. derive demo (KeyString (Str t)) [3] None)
        = Inl (BTClibValueError DepthOverflow)"
    by code_simp
  have e: "assert_valid demo demo_xprv = Inr () \<and> depth demo_xprv = 0
     \<and> map_sum id q
         (ckd demo (extended demo_xprv (int_from_bytes (tl (key demo_xprv))) (INF_point demo)) 6)
        = Inr 0"
    by code_simp
  have f: "derive demo (KeyData demo_xprv) [6] None
        = Inl (BTClibValueError InvalidPrivateKeyRange)"
    by code_simp
  have g: "bnd (xpub_from_xprv demo (KeyData demo_xprv))
         (\<lambda>t. derive demo (KeyString (Str t)) [6] None)
        = Inl (BTClibValueError (Collaborator 0))"
    by code_simp
  from a b c d e f g show ?thesis by simp
qed

end
